theory Spec2Isabelle
  imports Complex_Main "HOL-Library.Multiset" "HOL-Library.AList"
    "HOL-Library.Char_ord" "HOL-Library.List_Lexorder"
begin

section \<open>Dubai ETA prediction: zone model, trip generator, feature engineer, predictor\<close>

text \<open>
  The development embeds the Python sources \<^verbatim>\<open>src/data_generator.py\<close>,
  \<^verbatim>\<open>src/feature_engineering.py\<close>, \<^verbatim>\<open>src/models.py\<close> and
  \<^verbatim>\<open>src/predictor.py\<close>. Python integers are \<^typ>\<open>int\<close>. A float is the
  \<^typ>\<open>real\<close> it denotes. Where the rounding of a float operation bears on the result
  (the sizes of the split, the factor decomposition) the operation is taken from a
  record \<open>arith\<close> of the machine's operations; elsewhere (feature values, confidence
  bounds) the operations are the exact ones. Exceptions are values of \<open>error\<close>.
\<close>

datatype error =
    ValueError string
  | KeyError string
  | TypeError
  | ZeroDivisionError

subsection \<open>Configuration (\<^verbatim>\<open>config.zones_config\<close>, \<^verbatim>\<open>config.get\<close>)\<close>

text \<open>
  \<^verbatim>\<open>zones_config\<close> is the YAML mapping \<^verbatim>\<open>zones\<close>, in declaration order: a zone type
  name, and either a mapping (with or without a \<^verbatim>\<open>cells\<close> list), a list whose entries
  may themselves be lists of zone ids, or any other value.
\<close>

datatype zone_entry = ZoneList "int list" | NotAList

datatype zone_data =
    DictWithCells "int list"
  | DictWithoutCells
  | ListData "zone_entry list"
  | OtherData

type_synonym zones_config = "(string \<times> zone_data) list"

record config =
  data_n_zones :: "int option"
  data_grid_size :: "int option"
  zones :: zones_config

text \<open>\<^verbatim>\<open>config.get('data.n_zones', 100)\<close> and \<^verbatim>\<open>config.get('data.grid_size', 10)\<close>.\<close>

definition get_n_zones :: "config \<Rightarrow> int" where
  "get_n_zones c = (case data_n_zones c of None \<Rightarrow> 100 | Some n \<Rightarrow> n)"

definition get_grid_size :: "config \<Rightarrow> int" where
  "get_grid_size c = (case data_grid_size c of None \<Rightarrow> 10 | Some g \<Rightarrow> g)"

subsection \<open>Zone model\<close>

text \<open>
  \<^verbatim>\<open>DubaiDataGenerator._define_zone_types\<close>: a dictionary from zone id to type name.
  Every id of \<^verbatim>\<open>range(n_zones)\<close> starts as residential, then the configuration entries
  are applied in order, each assignment overwriting the previous one.
\<close>

definition assign_cells :: "string \<Rightarrow> int list \<Rightarrow> (int \<rightharpoonup> string) \<Rightarrow> (int \<rightharpoonup> string)" where
  "assign_cells zone_type cells zone_types = fold (\<lambda>zone m. m(zone \<mapsto> zone_type)) cells zone_types"

fun assign_entry :: "string \<Rightarrow> zone_entry \<Rightarrow> (int \<rightharpoonup> string) \<Rightarrow> (int \<rightharpoonup> string)" where
  "assign_entry zone_type (ZoneList zone_list) zone_types = assign_cells zone_type zone_list zone_types"
| "assign_entry zone_type NotAList zone_types = zone_types"

fun override_zone_types :: "string \<times> zone_data \<Rightarrow> (int \<rightharpoonup> string) \<Rightarrow> (int \<rightharpoonup> string)" where
  "override_zone_types (zone_type, DictWithCells cells) zone_types = assign_cells zone_type cells zone_types"
| "override_zone_types (zone_type, ListData entries) zone_types = fold (assign_entry zone_type) entries zone_types"
| "override_zone_types (zone_type, DictWithoutCells) zone_types = zone_types"
| "override_zone_types (zone_type, OtherData) zone_types = zone_types"

definition define_zone_types :: "config \<Rightarrow> (int \<rightharpoonup> string)" where
  "define_zone_types c =
     fold override_zone_types (zones c)
       (fold (\<lambda>zone m. m(zone \<mapsto> ''residential'')) [0 .. get_n_zones c - 1] Map.empty)"

text \<open>
  \<^verbatim>\<open>ETAPredictor._get_zone_type\<close>: walks the same configuration in the same order and
  returns at the first entry that lists the zone; residential when none does.
\<close>

fun entry_contains :: "int \<Rightarrow> zone_entry \<Rightarrow> bool" where
  "entry_contains zone (ZoneList zone_list) = (zone \<in> set zone_list)"
| "entry_contains zone NotAList = False"

fun get_zone_type_in :: "zones_config \<Rightarrow> int \<Rightarrow> string" where
  "get_zone_type_in [] zone = ''residential''"
| "get_zone_type_in ((zone_type, DictWithCells cells) # rest) zone =
     (if zone \<in> set cells then zone_type else get_zone_type_in rest zone)"
| "get_zone_type_in ((zone_type, ListData entries) # rest) zone =
     (if list_ex (entry_contains zone) entries then zone_type else get_zone_type_in rest zone)"
| "get_zone_type_in ((zone_type, DictWithoutCells) # rest) zone = get_zone_type_in rest zone"
| "get_zone_type_in ((zone_type, OtherData) # rest) zone = get_zone_type_in rest zone"

definition get_zone_type :: "config \<Rightarrow> int \<Rightarrow> string" where
  "get_zone_type c zone = get_zone_type_in (zones c) zone"

text \<open>
  \<^verbatim>\<open>DubaiDataGenerator.calculate_dubai_distance\<close> and
  \<^verbatim>\<open>ETAPredictor._calculate_dubai_distance\<close>. Python's \<^verbatim>\<open>//\<close> and \<^verbatim>\<open>%\<close> on integers
  are floor division and its remainder, as \<open>div\<close> and \<open>mod\<close> on \<^typ>\<open>int\<close>; a zero
  divisor raises. Neither function looks at the zone count.
\<close>

definition floordiv :: "int \<Rightarrow> int \<Rightarrow> error + int" where
  "floordiv a b = (if b = 0 then Inl ZeroDivisionError else Inr (a div b))"

definition pymod :: "int \<Rightarrow> int \<Rightarrow> error + int" where
  "pymod a b = (if b = 0 then Inl ZeroDivisionError else Inr (a mod b))"

definition calculate_dubai_distance :: "config \<Rightarrow> int \<Rightarrow> int \<Rightarrow> error + int" where
  "calculate_dubai_distance c pickup dropoff =
     (let grid_size = get_grid_size c in
      case floordiv pickup grid_size of Inl e \<Rightarrow> Inl e | Inr p_row \<Rightarrow>
      case pymod pickup grid_size of Inl e \<Rightarrow> Inl e | Inr p_col \<Rightarrow>
      case floordiv dropoff grid_size of Inl e \<Rightarrow> Inl e | Inr d_row \<Rightarrow>
      case pymod dropoff grid_size of Inl e \<Rightarrow> Inl e | Inr d_col \<Rightarrow>
        Inr (abs (p_row - d_row) + abs (p_col - d_col)))"

definition predictor_calculate_dubai_distance :: "config \<Rightarrow> int \<Rightarrow> int \<Rightarrow> error + int" where
  "predictor_calculate_dubai_distance c pickup dropoff =
     (let grid_size = get_grid_size c in
      case floordiv pickup grid_size of Inl e \<Rightarrow> Inl e | Inr p_row \<Rightarrow>
      case pymod pickup grid_size of Inl e \<Rightarrow> Inl e | Inr p_col \<Rightarrow>
      case floordiv dropoff grid_size of Inl e \<Rightarrow> Inl e | Inr d_row \<Rightarrow>
      case pymod dropoff grid_size of Inl e \<Rightarrow> Inl e | Inr d_col \<Rightarrow>
        Inr (abs (p_row - d_row) + abs (p_col - d_col)))"

text \<open>
  The zone model of the specification: on a grid of side \<open>g\<close> a zone id is in range
  when it lies in \<open>[0, g * g)\<close>; its row and column are \<open>id div g\<close> and \<open>id mod g\<close>.
\<close>

definition in_range :: "config \<Rightarrow> int \<Rightarrow> bool" where
  "in_range c zone = (0 \<le> zone \<and> zone < get_grid_size c * get_grid_size c)"

definition manhattan :: "int \<Rightarrow> int \<Rightarrow> int \<Rightarrow> int" where
  "manhattan g a b = abs (a div g - b div g) + abs (a mod g - b mod g)"

subsection \<open>Float operations\<close>

text \<open>
  The float operations of the machine, each a function from the numbers its operands
  denote to the number its result denotes. \<open>float_mul ar x c\<close> is the float product
  \<^verbatim>\<open>x * c\<close> for a constant written \<open>c\<close> in the source or in the configuration (so the
  conversion of the decimal \<open>c\<close> to a float is part of it), \<open>float_sub ar x y\<close> the float
  difference \<^verbatim>\<open>x - y\<close>, \<open>round1 ar x\<close> is \<^verbatim>\<open>round(x, 1)\<close> on a 64-bit float and
  \<open>round1_traffic ar x\<close> is \<^verbatim>\<open>round(x, 1)\<close> on the product of a prediction and a
  constant, which need not be 64 bits wide (the advanced model predicts 32-bit floats,
  and the width of their product with a Python float depends on the numpy version).
  Nothing is fixed about these functions here; what a theorem needs of them is among
  its hypotheses. Results outside the range of the floats (infinities) are not modelled.
\<close>

record arith =
  float_mul :: "real \<Rightarrow> real \<Rightarrow> real"
  float_sub :: "real \<Rightarrow> real \<Rightarrow> real"
  round1 :: "real \<Rightarrow> real"
  round1_traffic :: "real \<Rightarrow> real"

subsection \<open>Chronological split (\<^verbatim>\<open>DubaiDataGenerator.split_data\<close>)\<close>

text \<open>
  A generated dataset is a list of trip rows; only the request time matters to the
  split, the other fields ride along. \<^verbatim>\<open>int(x)\<close> truncates towards zero, and a slice
  \<^verbatim>\<open>df[a:b]\<close> clips its bounds to the frame, a negative bound counting from the end.
  \<^verbatim>\<open>sort_values\<close> is the library's sort (quicksort by default, which is not stable),
  a parameter here: the order it gives to rows of equal time is its own. The sizes are
  truncations of the float products of the number of rows and the configured ratios.
\<close>

record trip_row =
  request_datetime :: int

definition py_int :: "real \<Rightarrow> int" where
  "py_int x = (if 0 \<le> x then \<lfloor>x\<rfloor> else \<lceil>x\<rceil>)"

definition slice_bound :: "nat \<Rightarrow> int \<Rightarrow> nat" where
  "slice_bound n i = (if i < 0 then nat (int n + i) else min n (nat i))"

definition py_slice :: "'a list \<Rightarrow> int \<Rightarrow> int \<Rightarrow> 'a list" where
  "py_slice xs a b =
     (let lo = slice_bound (length xs) a; hi = slice_bound (length xs) b
      in take (hi - lo) (drop lo xs))"

definition split_data ::
  "arith \<Rightarrow> ('a trip_row_scheme list \<Rightarrow> 'a trip_row_scheme list) \<Rightarrow> real \<Rightarrow> real \<Rightarrow>
     'a trip_row_scheme list \<Rightarrow>
     'a trip_row_scheme list \<times> 'a trip_row_scheme list \<times> 'a trip_row_scheme list" where
  "split_data ar sort_values train_ratio val_ratio df0 =
     (let df = sort_values df0;
          n = length df;
          train_size = py_int (float_mul ar (real n) train_ratio);
          val_size = py_int (float_mul ar (real n) val_ratio);
          train_df = py_slice df 0 train_size;
          val_df = py_slice df train_size (train_size + val_size);
          test_df = py_slice df (train_size + val_size) (int n)
      in (train_df, val_df, test_df))"

subsection \<open>Confidence intervals and factor decomposition (\<^verbatim>\<open>predictor.py\<close>, \<^verbatim>\<open>models.py\<close>)\<close>

text \<open>
  \<^verbatim>\<open>ETAPredictor._simple_confidence_interval\<close>, with its default confidence level
  0.95 as an argument.
\<close>

definition simple_confidence_interval :: "real \<Rightarrow> real \<Rightarrow> real \<times> real" where
  "simple_confidence_interval prediction confidence_level =
     (let std = prediction * 0.15;
          z = (if confidence_level = 0.95 then 1.96 else 2.58)
      in (max 1 (prediction - z * std), prediction + z * std))"

text \<open>
  \<^verbatim>\<open>AdvancedModel.predict_with_confidence\<close>: the gradient-boosted model's predictions are
  its input here (the model itself is an external library); each row of the stacked
  result is a pair of bounds.
\<close>

definition predict_with_confidence :: "real list \<Rightarrow> real \<Rightarrow> real list \<times> (real \<times> real) list" where
  "predict_with_confidence predictions confidence_level =
     (let std_estimate = map (\<lambda>p. p * 0.15) predictions;
          z_score = (if confidence_level = 0.95 then 1.96 else 2.58);
          lower_bound = map (\<lambda>(p, s). p - z_score * s) (zip predictions std_estimate);
          upper_bound = map (\<lambda>(p, s). p + z_score * s) (zip predictions std_estimate)
      in (predictions, zip lower_bound upper_bound))"

text \<open>
  \<^verbatim>\<open>round(x, 1)\<close> in exact arithmetic: the nearest multiple of one tenth, a tie going
  to the even one.
\<close>

definition round_half_even :: "real \<Rightarrow> int" where
  "round_half_even y =
     (let f = \<lfloor>y\<rfloor>; d = y - of_int f
      in if d < 1 / 2 then f else if 1 / 2 < d then f + 1 else if even f then f else f + 1)"

definition py_round1 :: "real \<Rightarrow> real" where
  "py_round1 x = of_int (round_half_even (x * 10)) / 10"

text \<open>
  The row of the single-trip input that \<^verbatim>\<open>_decompose_factors\<close> reads;
  \<^verbatim>\<open>trip_data.get('is_friday_prayer', False)\<close> allows the column to be absent. The
  traffic adjustment is the integer 0 unless one of the two branches assigns a product
  to it; \<^verbatim>\<open>round\<close> of the integer 0 is 0. The residual is two float subtractions, from
  left to right.
\<close>

record trip_data =
  dubai_distance :: int
  is_rush_hour :: bool
  is_friday_prayer :: "bool option"

record factors =
  base_time :: real
  traffic_adjustment :: real
  weather_impact :: real
  zone_complexity :: real

definition get_is_friday_prayer :: "trip_data \<Rightarrow> bool" where
  "get_is_friday_prayer trip = (case is_friday_prayer trip of None \<Rightarrow> False | Some b \<Rightarrow> b)"

definition raw_traffic_adjustment :: "arith \<Rightarrow> trip_data \<Rightarrow> real \<Rightarrow> real" where
  "raw_traffic_adjustment ar trip prediction =
     (if is_rush_hour trip then float_mul ar prediction 0.2
      else if get_is_friday_prayer trip then float_mul ar prediction 0.15
      else 0)"

definition decompose_factors :: "arith \<Rightarrow> trip_data \<Rightarrow> real \<Rightarrow> factors" where
  "decompose_factors ar trip prediction =
     (let base = float_mul ar (real_of_int (dubai_distance trip)) 3.0;
          traffic = raw_traffic_adjustment ar trip prediction;
          complexity = float_sub ar (float_sub ar prediction base) traffic
      in \<lparr> base_time = round1 ar base,
           traffic_adjustment =
             (if is_rush_hour trip \<or> get_is_friday_prayer trip then round1_traffic ar traffic else 0),
           weather_impact = 0.0,
           zone_complexity = round1 ar complexity \<rparr>)"

text \<open>
  The response of \<^verbatim>\<open>ETAPredictor.predict\<close>, from the chosen model's prediction for the
  single input row: the baseline gets the simple interval, any other model type the
  first row of the advanced model's intervals.
\<close>

record response =
  estimated_duration_minutes :: real
  confidence_interval :: "real \<times> real"
  response_factors :: factors

definition predict_response :: "arith \<Rightarrow> string \<Rightarrow> trip_data \<Rightarrow> real \<Rightarrow> response" where
  "predict_response ar model_type trip prediction =
     \<lparr> estimated_duration_minutes = prediction,
       confidence_interval =
         (if model_type = ''baseline'' then simple_confidence_interval prediction 0.95
          else hd (snd (predict_with_confidence [prediction] 0.95))),
       response_factors = decompose_factors ar trip prediction \<rparr>"

subsection \<open>Data frames\<close>

text \<open>
  A pandas frame is an ordered list of labelled columns of equal length; a label that
  occurs twice is read and written at its first occurrence. A cell is a number (Python's
  \<^verbatim>\<open>True\<close> and \<^verbatim>\<open>False\<close> are the numbers 1 and 0), a string, or the missing value
  \<^verbatim>\<open>NaN\<close>. Numeric operations propagate \<^verbatim>\<open>NaN\<close> and raise on a string.
\<close>

datatype cell = Num real | Str string | NaN

type_synonym column = "cell list"

type_synonym frame = "(string \<times> column) list"

definition ebind :: "error + 'a \<Rightarrow> ('a \<Rightarrow> error + 'b) \<Rightarrow> error + 'b" where
  "ebind m k = (case m of Inl e \<Rightarrow> Inl e | Inr x \<Rightarrow> k x)"

fun those_err :: "(error + 'a) list \<Rightarrow> error + 'a list" where
  "those_err [] = Inr []"
| "those_err (Inl e # rest) = Inl e"
| "those_err (Inr x # rest) = ebind (those_err rest) (\<lambda>xs. Inr (x # xs))"

definition columns :: "frame \<Rightarrow> string list" where
  "columns f = map fst f"

definition nrows :: "frame \<Rightarrow> nat" where
  "nrows f = (case f of [] \<Rightarrow> 0 | (label, col) # rest \<Rightarrow> length col)"

text \<open>\<^verbatim>\<open>df[name]\<close>, \<^verbatim>\<open>df[name] = col\<close> and \<^verbatim>\<open>df[[name, ...]]\<close>.\<close>

definition getitem :: "frame \<Rightarrow> string \<Rightarrow> error + column" where
  "getitem f name = (case map_of f name of None \<Rightarrow> Inl (KeyError name) | Some col \<Rightarrow> Inr col)"

definition setitem :: "string \<Rightarrow> column \<Rightarrow> frame \<Rightarrow> frame" where
  "setitem name col f = AList.update name col f"

definition select :: "frame \<Rightarrow> string list \<Rightarrow> error + frame" where
  "select f names = those_err (map (\<lambda>name. ebind (getitem f name) (\<lambda>col. Inr (name, col))) names)"

fun cell_num :: "cell \<Rightarrow> error + real option" where
  "cell_num (Num x) = Inr (Some x)"
| "cell_num NaN = Inr None"
| "cell_num (Str s) = Inl TypeError"

fun of_num :: "real option \<Rightarrow> cell" where
  "of_num (Some x) = Num x"
| "of_num None = NaN"

definition num_column :: "column \<Rightarrow> error + real option list" where
  "num_column col = those_err (map cell_num col)"

definition numeric1 :: "(real \<Rightarrow> real) \<Rightarrow> frame \<Rightarrow> string \<Rightarrow> error + column" where
  "numeric1 g f name =
     ebind (getitem f name) (\<lambda>col.
     ebind (num_column col) (\<lambda>xs.
       Inr (map (\<lambda>x. of_num (map_option g x)) xs)))"

fun lift2 :: "(real \<Rightarrow> real \<Rightarrow> real) \<Rightarrow> real option \<times> real option \<Rightarrow> cell" where
  "lift2 g (Some x, Some y) = Num (g x y)"
| "lift2 g (x, y) = NaN"

definition numeric2 :: "(real \<Rightarrow> real \<Rightarrow> real) \<Rightarrow> frame \<Rightarrow> string \<Rightarrow> string \<Rightarrow> error + column" where
  "numeric2 g f name1 name2 =
     ebind (getitem f name1) (\<lambda>col1.
     ebind (getitem f name2) (\<lambda>col2.
     ebind (num_column col1) (\<lambda>xs.
     ebind (num_column col2) (\<lambda>ys.
       Inr (map (lift2 g) (zip xs ys))))))"

text \<open>\<^verbatim>\<open>series.between(lo, hi).astype(int)\<close>: both bounds inclusive, \<^verbatim>\<open>NaN\<close> is outside.\<close>

fun between :: "real \<Rightarrow> real \<Rightarrow> real option \<Rightarrow> int" where
  "between lo hi (Some x) = (if lo \<le> x \<and> x \<le> hi then 1 else 0)"
| "between lo hi None = 0"

definition between_column :: "frame \<Rightarrow> string \<Rightarrow> real \<Rightarrow> real \<Rightarrow> error + int list" where
  "between_column f name lo hi =
     ebind (getitem f name) (\<lambda>col.
     ebind (num_column col) (\<lambda>xs. Inr (map (between lo hi) xs)))"

text \<open>\<^verbatim>\<open>(a == b).astype(int)\<close>: \<^verbatim>\<open>NaN\<close> equals nothing, itself included.\<close>

fun cell_eq :: "cell \<times> cell \<Rightarrow> cell" where
  "cell_eq (NaN, b) = Num 0"
| "cell_eq (a, NaN) = Num 0"
| "cell_eq (a, b) = Num (if a = b then 1 else 0)"

subsection \<open>Python dictionaries of the fitted statistics\<close>

text \<open>
  Keys are numbers, strings or tuples; a key that holds \<^verbatim>\<open>NaN\<close> finds nothing.
  \<^verbatim>\<open>d.get(k, default)\<close> is \<open>dict_get\<close>.
\<close>

datatype pykey = KNum real | KStr string | KTuple "pykey list"

type_synonym 'v pydict = "pykey \<rightharpoonup> 'v"

fun key_of_cell :: "cell \<Rightarrow> pykey option" where
  "key_of_cell (Num x) = Some (KNum x)"
| "key_of_cell (Str s) = Some (KStr s)"
| "key_of_cell NaN = None"

fun pair_key :: "cell \<times> cell \<Rightarrow> pykey option" where
  "pair_key (a, b) =
     (case (key_of_cell a, key_of_cell b) of
        (Some ka, Some kb) \<Rightarrow> Some (KTuple [ka, kb])
      | _ \<Rightarrow> None)"

definition dict_get :: "'v pydict \<Rightarrow> pykey option \<Rightarrow> 'v \<Rightarrow> 'v" where
  "dict_get d key fallback =
     (case key of None \<Rightarrow> fallback
      | Some k \<Rightarrow> (case d k of None \<Rightarrow> fallback | Some v \<Rightarrow> v))"

text \<open>
  Aggregations skip \<^verbatim>\<open>NaN\<close>: the mean of no value is \<^verbatim>\<open>NaN\<close>, and so is the sample
  standard deviation (one degree of freedom removed) of fewer than two values.
\<close>

definition present :: "real option list \<Rightarrow> real list" where
  "present vals = List.map_filter id vals"

definition agg_mean :: "real option list \<Rightarrow> cell" where
  "agg_mean vals =
     (let xs = present vals
      in if xs = [] then NaN else Num (sum_list xs / real (length xs)))"

definition agg_std :: "real option list \<Rightarrow> cell" where
  "agg_std vals =
     (let xs = present vals; n = length xs; m = sum_list xs / real n
      in if n < 2 then NaN
         else Num (sqrt (sum_list (map (\<lambda>x. (x - m) ^ 2) xs) / real (n - 1))))"

definition agg_count :: "real option list \<Rightarrow> cell" where
  "agg_count vals = Num (real (length (present vals)))"

text \<open>
  \<^verbatim>\<open>df.groupby(keys)[col].agg(f).to_dict()\<close> for one aggregation: a dictionary from
  group key to aggregate. Rows whose key holds \<^verbatim>\<open>NaN\<close> belong to no group.
\<close>

definition group_values :: "pykey option list \<Rightarrow> real option list \<Rightarrow> pykey \<Rightarrow> real option list" where
  "group_values keys vals k = map snd (filter (\<lambda>(k', v). k' = Some k) (zip keys vals))"

definition groupby_agg ::
  "(real option list \<Rightarrow> cell) \<Rightarrow> pykey option list \<Rightarrow> real option list \<Rightarrow> cell pydict" where
  "groupby_agg agg keys vals =
     map_of (map (\<lambda>k. (k, agg (group_values keys vals k))) (remdups (List.map_filter id keys)))"

definition keys1 :: "frame \<Rightarrow> string \<Rightarrow> error + pykey option list" where
  "keys1 f name = ebind (getitem f name) (\<lambda>col. Inr (map key_of_cell col))"

definition keys2 :: "frame \<Rightarrow> string \<Rightarrow> string \<Rightarrow> error + pykey option list" where
  "keys2 f name1 name2 =
     ebind (getitem f name1) (\<lambda>col1.
     ebind (getitem f name2) (\<lambda>col2. Inr (map pair_key (zip col1 col2))))"

definition durations :: "frame \<Rightarrow> error + real option list" where
  "durations f = ebind (getitem f ''actual_duration_minutes'') num_column"

subsection \<open>The feature engineer and the store of frames\<close>

text \<open>
  \<^verbatim>\<open>self.feature_stats\<close> is a dictionary from statistic name to either a dictionary or
  a single value; \<^verbatim>\<open>self.zone_pair_stats\<close> is what \<^verbatim>\<open>DataFrame.to_dict()\<close> returns:
  a dictionary of dictionaries.
\<close>

datatype stat = StatDict "cell pydict" | StatValue cell

record feature_engineer =
  feature_stats :: "string \<rightharpoonup> stat"
  zone_pair_stats :: "(cell pydict) pydict"
  training_columns :: "string list option"
  fitted :: bool

text \<open>\<^verbatim>\<open>FeatureEngineer.__init__\<close>.\<close>

definition init_engineer :: feature_engineer where
  "init_engineer =
     \<lparr> feature_stats = Map.empty, zone_pair_stats = Map.empty,
       training_columns = None, fitted = False \<rparr>"

text \<open>
  Frames are objects: the store holds them by address (an index), a caller's frame
  stays at its address, and \<^verbatim>\<open>df.copy()\<close> and every operation that builds a frame
  allocate a new one. An action runs on the store and the engineer instance and returns
  a value or the exception raised, together with the state it leaves behind.
\<close>

record world =
  frames :: "frame list"
  engineer :: feature_engineer

type_synonym 'a action = "world \<Rightarrow> (error + 'a) \<times> world"

definition ret :: "'a \<Rightarrow> 'a action" where
  "ret x w = (Inr x, w)"

definition eval :: "(world \<Rightarrow> error + 'a) \<Rightarrow> 'a action" where
  "eval g w = (g w, w)"

definition seq :: "'a action \<Rightarrow> ('a \<Rightarrow> 'b action) \<Rightarrow> 'b action" where
  "seq m k w = (case m w of (Inl e, w1) \<Rightarrow> (Inl e, w1) | (Inr x, w1) \<Rightarrow> k x w1)"

definition modify_engineer :: "(feature_engineer \<Rightarrow> feature_engineer) \<Rightarrow> unit action" where
  "modify_engineer g w = (Inr (), w\<lparr> engineer := g (engineer w) \<rparr>)"

definition set_stat :: "string \<Rightarrow> stat \<Rightarrow> unit action" where
  "set_stat name v = modify_engineer (\<lambda>e. e\<lparr> feature_stats := (feature_stats e)(name \<mapsto> v) \<rparr>)"

definition new_frame :: "frame \<Rightarrow> nat action" where
  "new_frame f w = (Inr (length (frames w)), w\<lparr> frames := frames w @ [f] \<rparr>)"

definition frame_copy :: "nat \<Rightarrow> nat action" where
  "frame_copy a w = new_frame (frames w ! a) w"

definition modify_frame :: "nat \<Rightarrow> (frame \<Rightarrow> frame) \<Rightarrow> unit action" where
  "modify_frame a g w = (Inr (), w\<lparr> frames := (frames w)[a := g (frames w ! a)] \<rparr>)"

subsection \<open>\<^verbatim>\<open>FeatureEngineer.fit\<close>\<close>

definition zone_pair_aggregates :: "frame \<Rightarrow> error + (cell pydict) pydict" where
  "zone_pair_aggregates df =
     ebind (keys2 df ''pickup_zone'' ''dropoff_zone'') (\<lambda>keys.
     ebind (durations df) (\<lambda>vals.
       Inr [KStr ''mean'' \<mapsto> groupby_agg agg_mean keys vals,
            KStr ''std'' \<mapsto> groupby_agg agg_std keys vals,
            KStr ''count'' \<mapsto> groupby_agg agg_count keys vals]))"

definition group_mean1 :: "frame \<Rightarrow> string \<Rightarrow> error + cell pydict" where
  "group_mean1 df name =
     ebind (keys1 df name) (\<lambda>keys.
     ebind (durations df) (\<lambda>vals. Inr (groupby_agg agg_mean keys vals)))"

definition group_mean2 :: "frame \<Rightarrow> string \<Rightarrow> string \<Rightarrow> error + cell pydict" where
  "group_mean2 df name1 name2 =
     ebind (keys2 df name1 name2) (\<lambda>keys.
     ebind (durations df) (\<lambda>vals. Inr (groupby_agg agg_mean keys vals)))"

definition fit :: "nat \<Rightarrow> unit action" where
  "fit df =
     seq (eval (\<lambda>w. zone_pair_aggregates (frames w ! df))) (\<lambda>stats.
     seq (modify_engineer (\<lambda>e. e\<lparr> zone_pair_stats := stats \<rparr>)) (\<lambda>_.
     seq (eval (\<lambda>w. group_mean1 (frames w ! df) ''hour'')) (\<lambda>d.
     seq (set_stat ''hour_mean'' (StatDict d)) (\<lambda>_.
     seq (eval (\<lambda>w. group_mean1 (frames w ! df) ''day_of_week'')) (\<lambda>d.
     seq (set_stat ''dow_mean'' (StatDict d)) (\<lambda>_.
     seq (eval (\<lambda>w. group_mean2 (frames w ! df) ''zone_type_pickup'' ''zone_type_dropoff'')) (\<lambda>d.
     seq (set_stat ''zone_combo_mean'' (StatDict d)) (\<lambda>_.
     seq (eval (\<lambda>w. durations (frames w ! df))) (\<lambda>vals.
     seq (set_stat ''global_mean'' (StatValue (agg_mean vals))) (\<lambda>_.
     seq (eval (\<lambda>w. durations (frames w ! df))) (\<lambda>vals.
     seq (set_stat ''global_std'' (StatValue (agg_std vals))) (\<lambda>_.
     modify_engineer (\<lambda>e. e\<lparr> fitted := True \<rparr>)))))))))))))"

subsection \<open>\<^verbatim>\<open>FeatureEngineer.transform\<close>\<close>

text \<open>Reading \<^verbatim>\<open>self.feature_stats[name]\<close> as a value or as a dictionary.\<close>

definition stat_value :: "feature_engineer \<Rightarrow> string \<Rightarrow> error + cell" where
  "stat_value e name =
     (case feature_stats e name of
        None \<Rightarrow> Inl (KeyError name)
      | Some (StatValue c) \<Rightarrow> Inr c
      | Some (StatDict d) \<Rightarrow> Inl TypeError)"

definition stat_dict :: "feature_engineer \<Rightarrow> string \<Rightarrow> error + cell pydict" where
  "stat_dict e name =
     (case feature_stats e name of
        None \<Rightarrow> Inl (KeyError name)
      | Some (StatDict d) \<Rightarrow> Inr d
      | Some (StatValue c) \<Rightarrow> Inl TypeError)"

fun fillna :: "cell \<Rightarrow> cell \<Rightarrow> cell" where
  "fillna NaN v = v"
| "fillna c v = c"

text \<open>
  The body of \<^verbatim>\<open>transform\<close> is a sequence of column assignments on the copy, one of
  them under \<^verbatim>\<open>if 'is_friday_prayer' in features.columns\<close>. The right-hand side of an
  assignment reads the engineer and the frame as it is at that point.
\<close>

type_synonym expr = "feature_engineer \<Rightarrow> frame \<Rightarrow> error + column"

datatype stmt = Assign string expr | IfColumn string stmt

fun exec_stmt :: "feature_engineer \<Rightarrow> stmt \<Rightarrow> frame \<Rightarrow> error + frame" where
  "exec_stmt e (Assign name rhs) f = ebind (rhs e f) (\<lambda>col. Inr (setitem name col f))"
| "exec_stmt e (IfColumn name s) f = (if name \<in> set (columns f) then exec_stmt e s f else Inr f)"

definition cyclic :: "(real \<Rightarrow> real) \<Rightarrow> string \<Rightarrow> real \<Rightarrow> expr" where
  "cyclic trig name period e f = numeric1 (\<lambda>x. trig (2 * pi * x / period)) f name"

text \<open>
  \<^verbatim>\<open>self.zone_pair_stats.get((x['pickup_zone'], x['dropoff_zone']), {}).get(stat, fallback)\<close>,
  row by row.
\<close>

definition zone_pair_lookup :: "feature_engineer \<Rightarrow> string \<Rightarrow> cell \<Rightarrow> cell \<times> cell \<Rightarrow> cell" where
  "zone_pair_lookup e name fallback pd =
     dict_get (dict_get (zone_pair_stats e) (pair_key pd) Map.empty) (Some (KStr name)) fallback"

definition zone_pair_feature :: "string \<Rightarrow> (feature_engineer \<Rightarrow> error + cell) \<Rightarrow> expr" where
  "zone_pair_feature name fallback e f =
     ebind (getitem f ''pickup_zone'') (\<lambda>ps.
     ebind (getitem f ''dropoff_zone'') (\<lambda>ds.
     ebind (fallback e) (\<lambda>v.
       Inr (map (zone_pair_lookup e name v) (zip ps ds)))))"

text \<open>\<^verbatim>\<open>features[name].map(self.feature_stats[stat]).fillna(self.feature_stats['global_mean'])\<close>.\<close>

definition mapped_mean :: "string \<Rightarrow> string \<Rightarrow> expr" where
  "mapped_mean name stat_name e f =
     ebind (getitem f name) (\<lambda>col.
     ebind (stat_dict e stat_name) (\<lambda>d.
     ebind (stat_value e ''global_mean'') (\<lambda>g.
       Inr (map (\<lambda>c. fillna (dict_get d (key_of_cell c) NaN) g) col))))"

definition zone_combo_mean :: expr where
  "zone_combo_mean e f =
     ebind (stat_dict e ''zone_combo_mean'') (\<lambda>d.
     ebind (getitem f ''zone_type_pickup'') (\<lambda>ps.
     ebind (getitem f ''zone_type_dropoff'') (\<lambda>ds.
     ebind (stat_value e ''global_mean'') (\<lambda>g.
       Inr (map (\<lambda>pd. dict_get d (pair_key pd) g) (zip ps ds))))))"

definition product :: "string \<Rightarrow> string \<Rightarrow> expr" where
  "product name1 name2 e f = numeric2 (\<lambda>x y. x * y) f name1 name2"

definition squared :: "string \<Rightarrow> expr" where
  "squared name e f = numeric1 (\<lambda>x. x ^ 2) f name"

definition same_zone_type :: expr where
  "same_zone_type e f =
     ebind (getitem f ''zone_type_pickup'') (\<lambda>ps.
     ebind (getitem f ''zone_type_dropoff'') (\<lambda>ds.
       Inr (map cell_eq (zip ps ds))))"

definition window :: "real \<Rightarrow> real \<Rightarrow> expr" where
  "window lo hi e f =
     ebind (between_column f ''hour'' lo hi) (\<lambda>bs. Inr (map (\<lambda>b. Num (real_of_int b)) bs))"

definition int_or :: "int \<times> int \<Rightarrow> int" where
  "int_or ab = or (fst ab) (snd ab)"

definition is_night :: expr where
  "is_night e f =
     ebind (between_column f ''hour'' 22 23) (\<lambda>late.
     ebind (between_column f ''hour'' 0 5) (\<lambda>early.
       Inr (map (\<lambda>ab. Num (real_of_int (int_or ab))) (zip late early))))"

definition feature_statements :: "stmt list" where
  "feature_statements =
     [Assign ''hour_sin'' (cyclic sin ''hour'' 24),
      Assign ''hour_cos'' (cyclic cos ''hour'' 24),
      Assign ''dow_sin'' (cyclic sin ''day_of_week'' 7),
      Assign ''dow_cos'' (cyclic cos ''day_of_week'' 7),
      Assign ''zone_pair_mean'' (zone_pair_feature ''mean'' (\<lambda>e. stat_value e ''global_mean'')),
      Assign ''zone_pair_std'' (zone_pair_feature ''std'' (\<lambda>e. stat_value e ''global_std'')),
      Assign ''zone_pair_count'' (zone_pair_feature ''count'' (\<lambda>e. Inr (Num 0))),
      Assign ''hour_mean'' (mapped_mean ''hour'' ''hour_mean''),
      Assign ''dow_mean'' (mapped_mean ''day_of_week'' ''dow_mean''),
      Assign ''zone_combo_mean'' zone_combo_mean,
      Assign ''distance_rush'' (product ''dubai_distance'' ''is_rush_hour''),
      Assign ''distance_weekend'' (product ''dubai_distance'' ''is_weekend''),
      Assign ''distance_squared'' (squared ''dubai_distance''),
      IfColumn ''is_friday_prayer''
        (Assign ''distance_friday_prayer'' (product ''dubai_distance'' ''is_friday_prayer'')),
      Assign ''same_zone_type'' same_zone_type,
      Assign ''is_morning'' (window 6 10),
      Assign ''is_afternoon'' (window 12 16),
      Assign ''is_evening'' (window 17 21),
      Assign ''is_night'' is_night]"

text \<open>
  \<^verbatim>\<open>pd.get_dummies(features, columns=categorical_cols, prefix_sep='_')\<close>: the encoded
  columns are removed and, for each of them in turn, one indicator column per level
  (sorted) is appended. The levels are the strings of the column: \<^verbatim>\<open>NaN\<close> is no
  level, and a number among the cells is outside the trip schema and raises.
\<close>

fun cell_level :: "cell \<Rightarrow> error + string option" where
  "cell_level (Str s) = Inr (Some s)"
| "cell_level NaN = Inr None"
| "cell_level (Num x) = Inl TypeError"

definition levels :: "column \<Rightarrow> error + string list" where
  "levels col =
     ebind (those_err (map cell_level col)) (\<lambda>ls. Inr (sort (remdups (List.map_filter id ls))))"

definition dummy_columns :: "string \<Rightarrow> column \<Rightarrow> error + frame" where
  "dummy_columns name col =
     ebind (levels col) (\<lambda>ls.
       Inr (map (\<lambda>l. (name @ ''_'' @ l, map (\<lambda>c. Num (if c = Str l then 1 else 0)) col)) ls))"

definition get_dummies :: "frame \<Rightarrow> string list \<Rightarrow> error + frame" where
  "get_dummies data cols =
     ebind (those_err (map (\<lambda>name. ebind (getitem data name) (dummy_columns name)) cols)) (\<lambda>ds.
       Inr (filter (\<lambda>(label, col). label \<notin> set cols) data @ concat ds))"

definition categorical_cols :: "string list" where
  "categorical_cols = [''zone_type_pickup'', ''zone_type_dropoff'', ''weather'']"

definition exec :: "stmt \<Rightarrow> nat \<Rightarrow> unit action" where
  "exec s a w =
     (case exec_stmt (engineer w) s (frames w ! a) of
        Inl e \<Rightarrow> (Inl e, w)
      | Inr f \<Rightarrow> (Inr (), w\<lparr> frames := (frames w)[a := f] \<rparr>))"

fun exec_all :: "stmt list \<Rightarrow> nat \<Rightarrow> unit action" where
  "exec_all [] a = ret ()"
| "exec_all (s # ss) a = seq (exec s a) (\<lambda>_. exec_all ss a)"

text \<open>
  Lines 56 to 123: the copy, the assignments and the one-hot encoding. The result is
  the address of the encoded frame.
\<close>

definition build_features :: "nat \<Rightarrow> nat action" where
  "build_features df =
     seq (frame_copy df) (\<lambda>features.
     seq (exec_all feature_statements features) (\<lambda>_.
     seq (eval (\<lambda>w. get_dummies (frames w ! features) categorical_cols)) (\<lambda>encoded.
     new_frame encoded)))"

text \<open>
  Lines 125 to 132: \<^verbatim>\<open>for col in self.training_columns: if col not in features.columns:
  features[col] = 0\<close>, then \<^verbatim>\<open>features[self.training_columns]\<close>.
\<close>

fun add_missing :: "string list \<Rightarrow> frame \<Rightarrow> frame" where
  "add_missing [] f = f"
| "add_missing (col # cols) f =
     add_missing cols
       (if col \<in> set (columns f) then f else setitem col (replicate (nrows f) (Num 0)) f)"

definition align_columns :: "nat \<Rightarrow> nat action" where
  "align_columns features w =
     (case training_columns (engineer w) of
        None \<Rightarrow> ret features w
      | Some cols \<Rightarrow>
          seq (modify_frame features (add_missing cols)) (\<lambda>_.
          seq (eval (\<lambda>w. select (frames w ! features) cols)) (\<lambda>selected.
          new_frame selected)) w)"

definition check_fitted :: "unit action" where
  "check_fitted =
     eval (\<lambda>w. if \<not> fitted (engineer w)
               then Inl (ValueError ''FeatureEngineer must be fitted before transform'')
               else Inr ())"

definition transform :: "nat \<Rightarrow> nat action" where
  "transform df =
     seq check_fitted (\<lambda>_.
     seq (build_features df) (\<lambda>features.
     align_columns features))"

text \<open>\<^verbatim>\<open>FeatureEngineer.fit_transform\<close>.\<close>

definition fit_transform :: "nat \<Rightarrow> nat action" where
  "fit_transform df =
     seq (fit df) (\<lambda>_.
     seq (transform df) (\<lambda>transformed.
     seq (eval (\<lambda>w. Inr (columns (frames w ! transformed)))) (\<lambda>cols.
     seq (modify_engineer (\<lambda>e. e\<lparr> training_columns := Some cols \<rparr>)) (\<lambda>_.
     ret transformed))))"

subsection \<open>Specification vocabulary and concrete inputs\<close>

text \<open>
  The specification's name for the failure of an operation attempted before
  \<^verbatim>\<open>fit\<close>: the source raises Python's \<^verbatim>\<open>ValueError\<close> with this message.
\<close>

definition not_fitted_error :: error where
  "not_fitted_error = ValueError ''FeatureEngineer must be fitted before transform''"

text \<open>
  \<open>unchanged_below n w w'\<close>: from \<open>w\<close> to \<open>w'\<close> the engineer is the same, no frame
  has been removed, and the frames at addresses below \<open>n\<close> are the same.
\<close>

definition unchanged_below :: "nat \<Rightarrow> world \<Rightarrow> world \<Rightarrow> bool" where
  "unchanged_below n w w' =
     (engineer w' = engineer w \<and> length (frames w) \<le> length (frames w') \<and>
      take n (frames w') = take n (frames w))"

text \<open>A configuration entry lists a zone when its cells (or one of its lists) hold it.\<close>

fun lists_zone :: "int \<Rightarrow> string \<times> zone_data \<Rightarrow> bool" where
  "lists_zone zone (zone_type, DictWithCells cells) = (zone \<in> set cells)"
| "lists_zone zone (zone_type, ListData entries) = list_ex (entry_contains zone) entries"
| "lists_zone zone (zone_type, DictWithoutCells) = False"
| "lists_zone zone (zone_type, OtherData) = False"

text \<open>The default configuration (100 zones, grid side 10), with no zone declared.\<close>

definition default_config :: config where
  "default_config = \<lparr> data_n_zones = None, data_grid_size = None, zones = [] \<rparr>"

text \<open>
  A configuration in which the airport cells 88, 89, 98 and 99 also lie in the coastal
  columns, the airport being declared after the coast.
\<close>

definition overlapping_config :: config where
  "overlapping_config = \<lparr> data_n_zones = Some 100, data_grid_size = Some 10,
     zones = [(''business'', DictWithCells [44, 45, 54, 55]),
              (''coastal'', DictWithCells [8, 9, 18, 19, 28, 29, 38, 39, 48, 49,
                                           58, 59, 68, 69, 78, 79, 88, 89, 98, 99]),
              (''airport'', DictWithCells [88, 89, 98, 99])] \<rparr>"

definition sample_trip :: trip_data where
  "sample_trip = \<lparr> dubai_distance = 1, is_rush_hour = False, is_friday_prayer = Some False \<rparr>"

definition rush_trip :: trip_data where
  "rush_trip = \<lparr> dubai_distance = 2, is_rush_hour = True, is_friday_prayer = Some False \<rparr>"

definition ten_trips :: "trip_row list" where
  "ten_trips = map (\<lambda>t. \<lparr> request_datetime = t \<rparr>) [5, 3, 9, 1, 7, 2, 8, 4, 10, 6]"

text \<open>
  Exact arithmetic as float operations: no operation rounds, and \<^verbatim>\<open>round(x, 1)\<close> is the
  exact rounding to tenths.
\<close>

definition exact_arith :: arith where
  "exact_arith = \<lparr> float_mul = (\<lambda>x c. x * c), float_sub = (\<lambda>x y. x - y),
                    round1 = py_round1, round1_traffic = py_round1 \<rparr>"

text \<open>
  \<open>near e y x\<close>: the float \<open>y\<close> stands for the exact result \<open>x\<close> with a relative error
  of at most \<open>e\<close>, or an absolute error of at most \<open>e\<close> where \<open>x\<close> is small. Float
  operations are \<open>accurate e\<close> when every product and difference is within \<open>e\<close> of the
  exact one, and \<^verbatim>\<open>round(x, 1)\<close> returns a float within \<open>e\<close> of a tenth \<open>k / 10\<close> that
  is nearest to \<open>x\<close> up to \<open>e\<close>. Operations that round to nearest are accurate for an
  \<open>e\<close> that is a small multiple of their unit roundoff (\<open>2 ^ -53\<close> for 64-bit floats,
  \<open>2 ^ -24\<close> for 32-bit floats), whether \<^verbatim>\<open>round\<close> is Python's or numpy's.
\<close>

definition near :: "real \<Rightarrow> real \<Rightarrow> real \<Rightarrow> bool" where
  "near e y x = (\<bar>y - x\<bar> \<le> e * (1 + \<bar>x\<bar>))"

definition rounds_to_tenths :: "real \<Rightarrow> (real \<Rightarrow> real) \<Rightarrow> bool" where
  "rounds_to_tenths e rnd =
     (\<forall>x. \<exists>k::int. \<bar>real_of_int k / 10 - x\<bar> \<le> 1 / 20 + e * (1 + \<bar>x\<bar>) \<and>
                     near e (rnd x) (real_of_int k / 10))"

definition accurate :: "real \<Rightarrow> arith \<Rightarrow> bool" where
  "accurate e ar =
     (0 \<le> e \<and>
      (\<forall>x c. near e (float_mul ar x c) (x * c)) \<and>
      (\<forall>x y. near e (float_sub ar x y) (x - y)) \<and>
      rounds_to_tenths e (round1 ar) \<and>
      rounds_to_tenths e (round1_traffic ar))"

text \<open>
  The base time of a distance is computed exactly: three times the distance is a float,
  and rounding it to one decimal returns it. (So it is for 64-bit floats as long as
  thirty times the distance is below \<open>2 ^ 53\<close>.)
\<close>

definition exact_base :: "arith \<Rightarrow> int \<Rightarrow> bool" where
  "exact_base ar d =
     (float_mul ar (real_of_int d) 3 = real_of_int (3 * d) \<and>
      round1 ar (real_of_int (3 * d)) = real_of_int (3 * d))"

text \<open>
  What is assumed of the library's sort: it returns the rows it is given, in an order
  in which the request times do not decrease.
\<close>

definition sorts_by_time :: "('a trip_row_scheme list \<Rightarrow> 'a trip_row_scheme list) \<Rightarrow> bool" where
  "sorts_by_time sort_values =
     (\<forall>xs. mset (sort_values xs) = mset xs \<and> sorted (map request_datetime (sort_values xs)))"

text \<open>
  A training frame of two trips, on the zone pairs (1, 2) and (3, 4), and a later frame
  of three trips at the hours 11, 16 and 21, on the pairs (1, 2), (3, 4) and (5, 6), one
  of them in a weather that never occurred in training.
\<close>

definition training_frame :: frame where
  "training_frame =
     [(''pickup_zone'', [Num 1, Num 3]),
      (''dropoff_zone'', [Num 2, Num 4]),
      (''actual_duration_minutes'', [Num 10, Num 20]),
      (''dubai_distance'', [Num 1, Num 1]),
      (''hour'', [Num 11, Num 16]),
      (''day_of_week'', [Num 0, Num 4]),
      (''is_weekend'', [Num 0, Num 0]),
      (''is_rush_hour'', [Num 0, Num 0]),
      (''is_friday_prayer'', [Num 0, Num 0]),
      (''zone_type_pickup'', [Str ''residential'', Str ''business'']),
      (''zone_type_dropoff'', [Str ''residential'', Str ''residential'']),
      (''weather'', [Str ''clear'', Str ''rain''])]"

definition later_frame :: frame where
  "later_frame =
     [(''pickup_zone'', [Num 1, Num 3, Num 5]),
      (''dropoff_zone'', [Num 2, Num 4, Num 6]),
      (''dubai_distance'', [Num 1, Num 1, Num 1]),
      (''hour'', [Num 11, Num 16, Num 21]),
      (''day_of_week'', [Num 0, Num 0, Num 0]),
      (''is_weekend'', [Num 0, Num 0, Num 0]),
      (''is_rush_hour'', [Num 0, Num 0, Num 0]),
      (''is_friday_prayer'', [Num 0, Num 0, Num 0]),
      (''zone_type_pickup'', [Str ''residential'', Str ''business'', Str ''residential'']),
      (''zone_type_dropoff'', [Str ''residential'', Str ''residential'', Str ''residential'']),
      (''weather'', [Str ''sandstorm'', Str ''clear'', Str ''clear''])]"

definition world0 :: world where
  "world0 = \<lparr> frames = [training_frame, later_frame], engineer = init_engineer \<rparr>"

text \<open>The columns of the transformed training frame.\<close>

definition training_columns0 :: "string list" where
  "training_columns0 =
     [''pickup_zone'', ''dropoff_zone'', ''actual_duration_minutes'',
      ''dubai_distance'', ''hour'', ''day_of_week'', ''is_weekend'',
      ''is_rush_hour'', ''is_friday_prayer'', ''hour_sin'', ''hour_cos'',
      ''dow_sin'', ''dow_cos'', ''zone_pair_mean'', ''zone_pair_std'',
      ''zone_pair_count'', ''hour_mean'', ''dow_mean'',
      ''zone_combo_mean'', ''distance_rush'', ''distance_weekend'',
      ''distance_squared'', ''distance_friday_prayer'',
      ''same_zone_type'', ''is_morning'', ''is_afternoon'',
      ''is_evening'', ''is_night'', ''zone_type_pickup_business'',
      ''zone_type_pickup_residential'', ''zone_type_dropoff_residential'',
      ''weather_clear'', ''weather_rain'']"

text \<open>
  The statistic that \<^verbatim>\<open>fit\<close> learned for a zone pair: the entry of the pair in the
  dictionary that \<^verbatim>\<open>zone_pair_stats\<close> holds under the statistic's name.
\<close>

definition learned_pair_stat :: "feature_engineer \<Rightarrow> string \<Rightarrow> cell \<times> cell \<Rightarrow> cell" where
  "learned_pair_stat e name pd =
     dict_get (dict_get (zone_pair_stats e) (Some (KStr name)) Map.empty) (pair_key pd) NaN"

text \<open>The label that a statement assigns.\<close>

fun target :: "stmt \<Rightarrow> string" where
  "target (Assign name rhs) = name"
| "target (IfColumn name s) = target s"

text \<open>
  An indicator column computed from the hour column alone, as the four time-window
  assignments do.
\<close>

definition hour_windows :: "(real option \<Rightarrow> int) \<Rightarrow> column option \<Rightarrow> error + column" where
  "hour_windows ind m =
     (case m of None \<Rightarrow> Inl (KeyError ''hour'')
      | Some col \<Rightarrow> ebind (num_column col) (\<lambda>xs. Inr (map (\<lambda>x. Num (real_of_int (ind x))) xs)))"

text \<open>
  A trip frame has the raw columns that \<^verbatim>\<open>transform\<close> reads, each of its kind: the
  numeric ones (the Friday prayer flag when the column is there) hold no string, the
  categorical ones hold no number. An engineer has its statistics ready when
  \<^verbatim>\<open>feature_stats\<close> holds the three dictionaries and the two global values.
\<close>

fun is_text :: "cell \<Rightarrow> bool" where
  "is_text (Str s) = True"
| "is_text c = False"

fun is_number :: "cell \<Rightarrow> bool" where
  "is_number (Num x) = True"
| "is_number c = False"

definition numeric_column :: "frame \<Rightarrow> string \<Rightarrow> bool" where
  "numeric_column f name =
     (case map_of f name of None \<Rightarrow> False | Some col \<Rightarrow> list_all (\<lambda>c. \<not> is_text c) col)"

definition categorical_column :: "frame \<Rightarrow> string \<Rightarrow> bool" where
  "categorical_column f name =
     (case map_of f name of None \<Rightarrow> False | Some col \<Rightarrow> list_all (\<lambda>c. \<not> is_number c) col)"

definition trip_frame :: "frame \<Rightarrow> bool" where
  "trip_frame f =
     (numeric_column f ''hour'' \<and> numeric_column f ''day_of_week'' \<and>
      numeric_column f ''dubai_distance'' \<and> numeric_column f ''is_rush_hour'' \<and>
      numeric_column f ''is_weekend'' \<and>
      (map_of f ''is_friday_prayer'' = None \<or> numeric_column f ''is_friday_prayer'') \<and>
      map_of f ''pickup_zone'' \<noteq> None \<and> map_of f ''dropoff_zone'' \<noteq> None \<and>
      categorical_column f ''zone_type_pickup'' \<and> categorical_column f ''zone_type_dropoff'' \<and>
      categorical_column f ''weather'')"

definition raw_labels :: "string list" where
  "raw_labels = [''hour'', ''day_of_week'', ''dubai_distance'', ''is_rush_hour'', ''is_weekend'',
     ''is_friday_prayer'', ''pickup_zone'', ''dropoff_zone'', ''zone_type_pickup'',
     ''zone_type_dropoff'', ''weather'']"

definition stats_ready :: "feature_engineer \<Rightarrow> bool" where
  "stats_ready e =
     ((\<exists>d. feature_stats e ''hour_mean'' = Some (StatDict d)) \<and>
      (\<exists>d. feature_stats e ''dow_mean'' = Some (StatDict d)) \<and>
      (\<exists>d. feature_stats e ''zone_combo_mean'' = Some (StatDict d)) \<and>
      (\<exists>c. feature_stats e ''global_mean'' = Some (StatValue c)) \<and>
      (\<exists>c. feature_stats e ''global_std'' = Some (StatValue c)))"

section \<open>Verified properties\<close>

subsection \<open>Zone model\<close>

lemma assign_cells_apply:
  "assign_cells t cells m z = (if z \<in> set cells then Some t else m z)"
  unfolding assign_cells_def by (induction cells arbitrary: m) auto

lemma init_residential_apply:
  "fold (\<lambda>zone m. m(zone \<mapsto> ''residential'')) zs m0 z = (if z \<in> set zs then Some ''residential'' else m0 z)"
  by (induction zs arbitrary: m0) auto

lemma assign_entry_dom: "z \<in> dom m \<Longrightarrow> z \<in> dom (assign_entry t e m)"
  by (cases e) (auto simp: assign_cells_apply dom_def)

lemma fold_assign_entry_dom: "z \<in> dom m \<Longrightarrow> z \<in> dom (fold (assign_entry t) es m)"
  by (induction es arbitrary: m) (simp_all add: assign_entry_dom)

lemma override_dom: "z \<in> dom m \<Longrightarrow> z \<in> dom (override_zone_types p m)"
proof (cases p)
  case (Pair t d)
  assume z: "z \<in> dom m"
  show ?thesis
  proof (cases d)
    case (DictWithCells cells)
    with z Pair show ?thesis by (auto simp: assign_cells_apply dom_def)
  next
    case (ListData entries)
    with z Pair show ?thesis by (simp add: fold_assign_entry_dom)
  qed (use z Pair in simp_all)
qed

lemma fold_override_dom: "z \<in> dom m \<Longrightarrow> z \<in> dom (fold override_zone_types ps m)"
  by (induction ps arbitrary: m) (simp_all add: override_dom)

lemma div_lt_side: "0 < (g::int) \<Longrightarrow> a < g * g \<Longrightarrow> a div g < g"
proof (rule ccontr)
  assume g: "0 < g" and a: "a < g * g" and n: "\<not> a div g < g"
  from n have "g \<le> a div g" by simp
  with g have "g * g \<le> g * (a div g)" by (simp add: mult_left_mono)
  also have "\<dots> = a - a mod g" by (simp add: minus_mod_eq_mult_div)
  also have "\<dots> \<le> a" using g by simp
  finally show False using a by simp
qed

lemma define_zone_types_in_range:
  assumes "0 \<le> z" "z < get_n_zones c"
  shows "define_zone_types c z \<noteq> None"
proof -
  have "z \<in> dom (fold (\<lambda>zone m. m(zone \<mapsto> ''residential'')) [0 .. get_n_zones c - 1] Map.empty)"
    using assms by (simp add: dom_def init_residential_apply)
  then have "z \<in> dom (define_zone_types c)"
    unfolding define_zone_types_def by (rule fold_override_dom)
  then show ?thesis by (simp add: dom_def)
qed

text \<open>
  Claim C9, as the code has it. The zone operations are pure functions and, on a grid
  of positive side, never fail: for every pair of integer zone ids, in range or not,
  both distance functions return the Manhattan distance of the coordinates
  \<open>id div g\<close> and \<open>id mod g\<close>. No operation checks the range of an id. For an id in
  range the coordinates lie on the grid and, when the zone count is the square of the
  grid side, the generator's mapping has a type for it.
\<close>

theorem zone_operations_total:
  assumes "0 < get_grid_size c" and "get_n_zones c = get_grid_size c * get_grid_size c"
  shows "calculate_dubai_distance c a b = Inr (manhattan (get_grid_size c) a b) \<and>
         predictor_calculate_dubai_distance c a b = Inr (manhattan (get_grid_size c) a b) \<and>
         (in_range c a \<longrightarrow>
            define_zone_types c a \<noteq> None \<and>
            0 \<le> a div get_grid_size c \<and> a div get_grid_size c < get_grid_size c \<and>
            0 \<le> a mod get_grid_size c \<and> a mod get_grid_size c < get_grid_size c)"
proof -
  let ?g = "get_grid_size c"
  have d: "calculate_dubai_distance c a b = Inr (manhattan ?g a b)"
    using assms(1) by (simp add: calculate_dubai_distance_def floordiv_def pymod_def manhattan_def Let_def)
  have p: "predictor_calculate_dubai_distance c a b = Inr (manhattan ?g a b)"
    using assms(1) by (simp add: predictor_calculate_dubai_distance_def floordiv_def pymod_def manhattan_def Let_def)
  have r: "define_zone_types c a \<noteq> None \<and> 0 \<le> a div ?g \<and> a div ?g < ?g \<and> 0 \<le> a mod ?g \<and> a mod ?g < ?g"
    if "in_range c a"
  proof -
    from that have a: "0 \<le> a" "a < ?g * ?g" by (simp_all add: in_range_def)
    have "define_zone_types c a \<noteq> None"
      using a assms(2) by (intro define_zone_types_in_range) simp_all
    moreover have "0 \<le> a div ?g" using a assms(1) by (simp add: pos_imp_zdiv_nonneg_iff)
    moreover have "a div ?g < ?g" using a assms(1) by (simp add: div_lt_side)
    moreover have "0 \<le> a mod ?g" "a mod ?g < ?g" using assms(1) by simp_all
    ultimately show ?thesis by simp
  qed
  show ?thesis using d p r by blast
qed

theorem zone_operations_total_witness:
  "calculate_dubai_distance default_config 0 99 = Inr 18 \<and>
   predictor_calculate_dubai_distance default_config 0 99 = Inr 18 \<and>
   in_range default_config 99 \<and> define_zone_types default_config 99 \<noteq> None"
  using zone_operations_total [of default_config 0 99] zone_operations_total [of default_config 99 0]
  by (simp add: default_config_def get_grid_size_def get_n_zones_def in_range_def manhattan_def)

text \<open>
  The zone id 150 is out of range on the default 10 by 10 grid, and yet both distance
  functions return a distance and the predictor's lookup returns a type: nothing fails.
\<close>

theorem out_of_range_zone_counterexample:
  "\<not> in_range default_config 150 \<and>
   calculate_dubai_distance default_config 0 150 = Inr 15 \<and>
   predictor_calculate_dubai_distance default_config 0 150 = Inr 15 \<and>
   get_zone_type default_config 150 = ''residential''"
  by (simp add: default_config_def in_range_def get_grid_size_def calculate_dubai_distance_def
      predictor_calculate_dubai_distance_def floordiv_def pymod_def get_zone_type_def)

lemma assign_entry_apply:
  "assign_entry t e m z = (if entry_contains z e then Some t else m z)"
  by (cases e) (simp_all add: assign_cells_apply)

lemma fold_assign_entry_apply:
  "fold (assign_entry t) es m z = (if list_ex (entry_contains z) es then Some t else m z)"
  by (induction es arbitrary: m) (auto simp: assign_entry_apply)

lemma override_apply:
  "override_zone_types p m z = (if lists_zone z p then Some (fst p) else m z)"
proof (cases p)
  case (Pair t d)
  then show ?thesis
    by (cases d) (simp_all add: assign_cells_apply fold_assign_entry_apply)
qed

text \<open>The generator keeps the last entry that lists the zone, the predictor the first.\<close>

lemma generator_last_entry:
  "fold override_zone_types cfg m z =
     (case filter (lists_zone z) cfg of [] \<Rightarrow> m z | p # ps \<Rightarrow> Some (fst (last (p # ps))))"
proof (induction cfg arbitrary: m)
  case Nil
  then show ?case by simp
next
  case (Cons q cfg)
  have "fold override_zone_types (q # cfg) m z
          = fold override_zone_types cfg (override_zone_types q m) z"
    by simp
  also have "\<dots> = (case filter (lists_zone z) cfg of [] \<Rightarrow> override_zone_types q m z
                     | p # ps \<Rightarrow> Some (fst (last (p # ps))))"
    by (rule Cons.IH)
  also have "\<dots> = (case filter (lists_zone z) (q # cfg) of [] \<Rightarrow> m z
                     | p # ps \<Rightarrow> Some (fst (last (p # ps))))"
    by (simp add: override_apply split: list.splits)
  finally show ?case .
qed

lemma predictor_first_entry:
  "get_zone_type_in cfg z =
     (case filter (lists_zone z) cfg of [] \<Rightarrow> ''residential'' | p # ps \<Rightarrow> fst p)"
  by (induction cfg z rule: get_zone_type_in.induct) simp_all

text \<open>
  Where at most one entry lists a zone of the range, the two components agree on it.
\<close>

lemma zone_types_agree_without_overlap:
  assumes "0 \<le> z" and "z < get_n_zones c"
    and "length (filter (lists_zone z) (zones c)) \<le> 1"
  shows "define_zone_types c z = Some (get_zone_type c z)"
proof -
  have r: "fold (\<lambda>zone m. m(zone \<mapsto> ''residential'')) [0 .. get_n_zones c - 1] Map.empty z
             = Some ''residential''"
    using assms(1,2) by (simp add: init_residential_apply)
  show ?thesis
  proof (cases "filter (lists_zone z) (zones c)")
    case Nil
    then show ?thesis
      by (simp add: define_zone_types_def get_zone_type_def generator_last_entry
          predictor_first_entry r)
  next
    case (Cons p ps)
    with assms(3) have "ps = []" by simp
    with Cons show ?thesis
      by (simp add: define_zone_types_def get_zone_type_def generator_last_entry
          predictor_first_entry)
  qed
qed

text \<open>
  Claim C8 at a configuration with overlapping cell lists. Zone 99 is declared coastal
  and then airport: the generator's mapping, where later entries overwrite earlier ones,
  gives airport; the predictor's lookup, which returns at the first entry listing the
  zone, gives coastal.
\<close>

theorem zone_type_mismatch_on_overlap:
  "define_zone_types overlapping_config 99 = Some ''airport'' \<and>
   get_zone_type overlapping_config 99 = ''coastal''"
  by (simp add: overlapping_config_def define_zone_types_def get_zone_type_def assign_cells_apply
      get_n_zones_def)

subsection \<open>Factor decomposition and confidence intervals\<close>

lemma round_half_even_close: "\<bar>real_of_int (round_half_even y) - y\<bar> \<le> 1 / 2"
  unfolding round_half_even_def Let_def by (simp split: if_splits; linarith)

lemma py_round1_close: "\<bar>py_round1 x - x\<bar> \<le> 1 / 20"
proof -
  have "\<bar>real_of_int (round_half_even (x * 10)) - x * 10\<bar> \<le> 1 / 2"
    by (rule round_half_even_close)
  then show ?thesis unfolding py_round1_def by (simp add: field_simps abs_le_iff)
qed

lemma round_half_even_of_int: "round_half_even (real_of_int k) = k"
  by (simp add: round_half_even_def)

lemma py_round1_of_int: "py_round1 (real_of_int k) = real_of_int k"
proof -
  have "real_of_int k * 10 = real_of_int (10 * k)" by simp
  then have "round_half_even (real_of_int k * 10) = 10 * k"
    using round_half_even_of_int by metis
  then show ?thesis by (simp add: py_round1_def)
qed

lemma py_round1_rounds_to_tenths: "rounds_to_tenths 0 py_round1"
  unfolding rounds_to_tenths_def near_def
proof
  fix x
  let ?k = "round_half_even (x * 10)"
  have "\<bar>real_of_int ?k / 10 - x\<bar> \<le> 1 / 20"
    using py_round1_close [of x] by (simp add: py_round1_def)
  moreover have "py_round1 x = real_of_int ?k / 10" by (simp add: py_round1_def)
  ultimately show "\<exists>k::int. \<bar>real_of_int k / 10 - x\<bar> \<le> 1 / 20 + 0 * (1 + \<bar>x\<bar>) \<and>
      \<bar>py_round1 x - real_of_int k / 10\<bar> \<le> 0 * (1 + \<bar>real_of_int k / 10\<bar>)"
    by (intro exI [of _ ?k]) simp
qed

lemma exact_arith_accurate: "accurate 0 exact_arith"
  unfolding accurate_def
  by (simp add: exact_arith_def near_def py_round1_rounds_to_tenths)

lemma exact_arith_exact_base: "exact_base exact_arith d"
  unfolding exact_base_def exact_arith_def
  using py_round1_of_int [of "3 * d"] by simp

lemma accurate_mul:
  "accurate e ar \<Longrightarrow> \<bar>float_mul ar x c - x * c\<bar> \<le> e * (1 + \<bar>x * c\<bar>)"
  unfolding accurate_def near_def by blast

lemma accurate_nonneg: "accurate e ar \<Longrightarrow> 0 \<le> e"
  by (simp add: accurate_def)

lemma near_abs:
  assumes "near e y x" and "0 \<le> e" and "e \<le> 1 / 10"
  shows "\<bar>y\<bar> \<le> 11 / 10 * \<bar>x\<bar> + 1 / 10"
proof -
  have "e * (1 + \<bar>x\<bar>) \<le> 1 / 10 * (1 + \<bar>x\<bar>)"
    using assms(3) by (intro mult_right_mono) simp_all
  with assms(1) show ?thesis unfolding near_def by argo
qed

lemma rounds_to_tenths_error:
  assumes "rounds_to_tenths e rnd" and "0 \<le> e" and "e \<le> 1 / 10"
  shows "\<bar>rnd x - x\<bar> \<le> 1 / 20 + e * (43 / 20 + 21 / 10 * \<bar>x\<bar>)"
proof -
  from assms(1) obtain k :: int
    where a: "\<bar>real_of_int k / 10 - x\<bar> \<le> 1 / 20 + e * (1 + \<bar>x\<bar>)"
      and b: "\<bar>rnd x - real_of_int k / 10\<bar> \<le> e * (1 + \<bar>real_of_int k / 10\<bar>)"
    unfolding rounds_to_tenths_def near_def by blast
  have "e * (1 + \<bar>x\<bar>) \<le> 1 / 10 * (1 + \<bar>x\<bar>)"
    using assms(3) by (intro mult_right_mono) simp_all
  with a have "1 + \<bar>real_of_int k / 10\<bar> \<le> 23 / 20 + 11 / 10 * \<bar>x\<bar>" by argo
  then have "e * (1 + \<bar>real_of_int k / 10\<bar>) \<le> e * (23 / 20 + 11 / 10 * \<bar>x\<bar>)"
    using assms(2) by (rule mult_left_mono)
  with a b have "\<bar>rnd x - x\<bar> \<le> 1 / 20 + e * (1 + \<bar>x\<bar>) + e * (23 / 20 + 11 / 10 * \<bar>x\<bar>)"
    by linarith
  also have "\<dots> = 1 / 20 + e * (43 / 20 + 21 / 10 * \<bar>x\<bar>)" by (simp add: algebra_simps)
  finally show ?thesis .
qed

lemma raw_traffic_near:
  assumes "accurate e ar"
  shows "near e (raw_traffic_adjustment ar trip p)
           ((if is_rush_hour trip then 0.2 else if get_is_friday_prayer trip then 0.15 else 0) * p)"
proof -
  from assms have m: "\<And>x c. near e (float_mul ar x c) (x * c)" and "0 \<le> e"
    by (simp_all add: accurate_def)
  then have z: "near e 0 0" by (simp add: near_def)
  show ?thesis
    using m [of p "0.2"] m [of p "0.15"] z
    by (simp add: raw_traffic_adjustment_def mult.commute)
qed

lemma error_weights:
  fixes T S Z P D B U :: real
  assumes "T \<le> 22 / 100 * P + 1 / 10" and "S \<le> 11 / 10 * (P + 3 * D) + 1 / 10"
    and "Z \<le> 11 / 10 * U + 1 / 10" and "B \<le> P + 3 * D" and "U \<le> S + T"
    and "0 \<le> P" and "0 \<le> D"
  shows "63 / 10 + 21 / 10 * T + 21 / 10 * Z + B + U \<le> 8 + 6 * P + 14 * D"
  using assms by argo

lemma decompose_sum_bound:
  fixes ar :: arith and trip :: trip_data and p :: real and e :: real
  defines "f \<equiv> decompose_factors ar trip p"
  defines "d \<equiv> dubai_distance trip"
  assumes acc: "accurate e ar" and e10: "e \<le> 1 / 10" and ex: "exact_base ar d"
  shows "\<bar>base_time f + traffic_adjustment f + weather_impact f + zone_complexity f - p\<bar>
           \<le> 1 / 10 + e * (8 + 6 * \<bar>p\<bar> + 14 * \<bar>real_of_int d\<bar>)"
proof -
  let ?b = "real_of_int d * 3"
  define t where "t = raw_traffic_adjustment ar trip p"
  define s where "s = float_sub ar p ?b"
  define z where "z = float_sub ar s t"
  from acc have e0: "0 \<le> e" by (simp add: accurate_def)
  from ex have mb: "float_mul ar (real_of_int d) 3 = ?b"
    and rb: "round1 ar ?b = ?b"
    by (simp_all add: exact_base_def mult.commute)
  have fb: "base_time f = ?b"
    unfolding f_def decompose_factors_def Let_def d_def [symmetric] by (simp add: mb rb)
  have fw: "weather_impact f = 0"
    unfolding f_def decompose_factors_def Let_def by simp
  have fz: "zone_complexity f = round1 ar z"
    unfolding f_def decompose_factors_def Let_def d_def [symmetric] z_def s_def t_def
    by (simp add: mb)
  have ft: "traffic_adjustment f =
      (if is_rush_hour trip \<or> get_is_friday_prayer trip then round1_traffic ar t else 0)"
    unfolding f_def decompose_factors_def Let_def t_def by simp
  have t0: "\<not> (is_rush_hour trip \<or> get_is_friday_prayer trip) \<Longrightarrow> t = 0"
    by (simp add: t_def raw_traffic_adjustment_def)
  let ?c = "(if is_rush_hour trip then 0.2 else if get_is_friday_prayer trip then 0.15 else 0) :: real"
  have "near e t (?c * p)" unfolding t_def by (rule raw_traffic_near [OF acc])
  from near_abs [OF this e0 e10] have "\<bar>t\<bar> \<le> 11 / 10 * \<bar>?c * p\<bar> + 1 / 10" .
  moreover have "\<bar>?c * p\<bar> \<le> 1 / 5 * \<bar>p\<bar>" by (simp add: abs_mult)
  ultimately have at: "\<bar>t\<bar> \<le> 22 / 100 * \<bar>p\<bar> + 1 / 10" by linarith
  have ns: "near e s (p - ?b)" and nz: "near e z (s - t)"
    using acc unfolding s_def z_def accurate_def by blast+
  have apb: "\<bar>p - ?b\<bar> \<le> \<bar>p\<bar> + 3 * \<bar>real_of_int d\<bar>" by linarith
  from near_abs [OF ns e0 e10] apb
  have as: "\<bar>s\<bar> \<le> 11 / 10 * (\<bar>p\<bar> + 3 * \<bar>real_of_int d\<bar>) + 1 / 10" by argo
  from near_abs [OF nz e0 e10]
  have az: "\<bar>z\<bar> \<le> 11 / 10 * \<bar>s - t\<bar> + 1 / 10" .
  have rt: "rounds_to_tenths e (round1_traffic ar)" and rz: "rounds_to_tenths e (round1 ar)"
    using acc by (simp_all add: accurate_def)
  have et: "\<bar>traffic_adjustment f - t\<bar> \<le> 1 / 20 + e * (43 / 20 + 21 / 10 * \<bar>t\<bar>)"
  proof (cases "is_rush_hour trip \<or> get_is_friday_prayer trip")
    case True
    then show ?thesis using rounds_to_tenths_error [OF rt e0 e10, of t] by (simp add: ft)
  next
    case False
    have "0 \<le> e * (43 / 20 + 21 / 10 * \<bar>t\<bar>)" using e0 by (intro mult_nonneg_nonneg) simp_all
    then show ?thesis using False t0 by (simp add: ft)
  qed
  have ez: "\<bar>zone_complexity f - z\<bar> \<le> 1 / 20 + e * (43 / 20 + 21 / 10 * \<bar>z\<bar>)"
    unfolding fz by (rule rounds_to_tenths_error [OF rz e0 e10])
  have es: "\<bar>s - (p - ?b)\<bar> \<le> e * (1 + \<bar>p - ?b\<bar>)" using ns by (simp add: near_def)
  have ezz: "\<bar>z - (s - t)\<bar> \<le> e * (1 + \<bar>s - t\<bar>)" using nz by (simp add: near_def)
  have "\<bar>base_time f + traffic_adjustment f + weather_impact f + zone_complexity f - p\<bar>
      \<le> 1 / 10 + (e * (43 / 20 + 21 / 10 * \<bar>t\<bar>) + e * (43 / 20 + 21 / 10 * \<bar>z\<bar>)
          + e * (1 + \<bar>p - ?b\<bar>) + e * (1 + \<bar>s - t\<bar>))"
    using et ez es ezz unfolding fb fw by linarith
  also have "e * (43 / 20 + 21 / 10 * \<bar>t\<bar>) + e * (43 / 20 + 21 / 10 * \<bar>z\<bar>)
          + e * (1 + \<bar>p - ?b\<bar>) + e * (1 + \<bar>s - t\<bar>)
      = e * (63 / 10 + 21 / 10 * \<bar>t\<bar> + 21 / 10 * \<bar>z\<bar> + \<bar>p - ?b\<bar> + \<bar>s - t\<bar>)"
    by (simp add: algebra_simps)
  also have "e * (63 / 10 + 21 / 10 * \<bar>t\<bar> + 21 / 10 * \<bar>z\<bar> + \<bar>p - ?b\<bar> + \<bar>s - t\<bar>)
      \<le> e * (8 + 6 * \<bar>p\<bar> + 14 * \<bar>real_of_int d\<bar>)"
  proof (rule mult_left_mono [OF _ e0])
    have "\<bar>s - t\<bar> \<le> \<bar>s\<bar> + \<bar>t\<bar>" by linarith
    then show "63 / 10 + 21 / 10 * \<bar>t\<bar> + 21 / 10 * \<bar>z\<bar> + \<bar>p - ?b\<bar> + \<bar>s - t\<bar>
        \<le> 8 + 6 * \<bar>p\<bar> + 14 * \<bar>real_of_int d\<bar>"
      by (intro error_weights [OF at as az apb]) simp_all
  qed
  finally show ?thesis by simp
qed

lemma get_is_friday_prayer_iff: "get_is_friday_prayer trip \<longleftrightarrow> is_friday_prayer trip = Some True"
  by (simp add: get_is_friday_prayer_def split: option.splits)

text \<open>
  Claim C2, as the code has it. Every returned factor is rounded to one decimal, the
  point estimate is not: the returned factors sum to the estimate within one tenth plus
  the rounding error of the float operations, which for operations accurate to \<open>e\<close> is
  at most \<open>e * (8 + 6 * \<bar>prediction\<bar> + 14 * \<bar>distance\<bar>)\<close>. The base time is three times
  the distance, as long as that is computed exactly; the traffic adjustment is
  \<^verbatim>\<open>round(x, 1)\<close> of the float product of the prediction and 0.2 in rush hour, else of
  the float product of the prediction and 0.15 in the Friday prayer window, else 0; the
  weather impact is 0; and the zone complexity is \<^verbatim>\<open>round(x, 1)\<close> of the residual, the
  float difference of the prediction, the base time and the unrounded traffic product.
\<close>

theorem factors_sum_within_rounding:
  fixes ar :: arith and model_type :: string and trip :: trip_data and prediction e :: real
  defines "r \<equiv> predict_response ar model_type trip prediction"
  defines "f \<equiv> response_factors r"
  defines "t \<equiv> raw_traffic_adjustment ar trip prediction"
  defines "d \<equiv> real_of_int (dubai_distance trip)"
  assumes "accurate e ar" and "e \<le> 1 / 10" and "exact_base ar (dubai_distance trip)"
  shows "\<bar>base_time f + traffic_adjustment f + weather_impact f + zone_complexity f
           - estimated_duration_minutes r\<bar> \<le> 1 / 10 + e * (8 + 6 * \<bar>prediction\<bar> + 14 * \<bar>d\<bar>) \<and>
         base_time f = d * 3 \<and>
         traffic_adjustment f =
           (if is_rush_hour trip \<or> is_friday_prayer trip = Some True then round1_traffic ar t else 0) \<and>
         weather_impact f = 0 \<and>
         zone_complexity f = round1 ar (float_sub ar (float_sub ar prediction (d * 3)) t) \<and>
         (is_rush_hour trip \<longrightarrow> t = float_mul ar prediction 0.2 \<and> near e t (0.2 * prediction)) \<and>
         (\<not> is_rush_hour trip \<and> is_friday_prayer trip = Some True \<longrightarrow>
            t = float_mul ar prediction 0.15 \<and> near e t (0.15 * prediction)) \<and>
         (\<not> is_rush_hour trip \<and> is_friday_prayer trip \<noteq> Some True \<longrightarrow> t = 0)"
proof -
  have rf: "f = decompose_factors ar trip prediction"
    and e: "estimated_duration_minutes r = prediction"
    unfolding f_def r_def predict_response_def by simp_all
  from assms(7) have mb: "float_mul ar d 3 = d * 3" and rb: "round1 ar (d * 3) = d * 3"
    by (simp_all add: exact_base_def d_def mult.commute)
  have s: "\<bar>base_time f + traffic_adjustment f + weather_impact f + zone_complexity f
           - estimated_duration_minutes r\<bar> \<le> 1 / 10 + e * (8 + 6 * \<bar>prediction\<bar> + 14 * \<bar>d\<bar>)"
    unfolding rf e d_def by (rule decompose_sum_bound [OF assms(5-7)])
  have fb: "base_time f = d * 3"
    unfolding rf decompose_factors_def Let_def d_def [symmetric] by (simp add: mb rb)
  have ft: "traffic_adjustment f =
           (if is_rush_hour trip \<or> is_friday_prayer trip = Some True then round1_traffic ar t else 0)"
    unfolding rf decompose_factors_def Let_def t_def by (simp add: get_is_friday_prayer_iff)
  have fw: "weather_impact f = 0"
    unfolding rf decompose_factors_def Let_def by simp
  have fz: "zone_complexity f = round1 ar (float_sub ar (float_sub ar prediction (d * 3)) t)"
    unfolding rf decompose_factors_def Let_def d_def [symmetric] t_def by (simp add: mb)
  from assms(5) have m: "\<And>x c. near e (float_mul ar x c) (x * c)"
    by (simp add: accurate_def)
  have c1: "is_rush_hour trip \<longrightarrow> t = float_mul ar prediction 0.2 \<and> near e t (0.2 * prediction)"
    using m [of prediction "0.2"] by (simp add: t_def raw_traffic_adjustment_def mult.commute)
  have c2: "\<not> is_rush_hour trip \<and> is_friday_prayer trip = Some True \<longrightarrow>
            t = float_mul ar prediction 0.15 \<and> near e t (0.15 * prediction)"
    using m [of prediction "0.15"]
    by (simp add: t_def raw_traffic_adjustment_def get_is_friday_prayer_iff mult.commute)
  have c3: "\<not> is_rush_hour trip \<and> is_friday_prayer trip \<noteq> Some True \<longrightarrow> t = 0"
    by (simp add: t_def raw_traffic_adjustment_def get_is_friday_prayer_iff)
  show ?thesis by (intro conjI s fb ft fw fz c1 c2 c3)
qed

theorem factors_sum_within_rounding_witness:
  "traffic_adjustment (response_factors (predict_response exact_arith ''advanced'' rush_trip (261 / 25))) = 21 / 10 \<and>
   zone_complexity (response_factors (predict_response exact_arith ''advanced'' rush_trip (261 / 25))) = 24 / 10 \<and>
   raw_traffic_adjustment exact_arith rush_trip (261 / 25) = 0.2 * (261 / 25) \<and>
   base_time (response_factors (predict_response exact_arith ''advanced'' rush_trip (261 / 25))) = 6 \<and>
   \<bar>base_time (response_factors (predict_response exact_arith ''advanced'' rush_trip (261 / 25)))
     + traffic_adjustment (response_factors (predict_response exact_arith ''advanced'' rush_trip (261 / 25)))
     + weather_impact (response_factors (predict_response exact_arith ''advanced'' rush_trip (261 / 25)))
     + zone_complexity (response_factors (predict_response exact_arith ''advanced'' rush_trip (261 / 25)))
     - estimated_duration_minutes (predict_response exact_arith ''advanced'' rush_trip (261 / 25))\<bar> \<le> 1 / 10"
  using factors_sum_within_rounding [OF exact_arith_accurate _ exact_arith_exact_base,
      of "''advanced''" rush_trip "261 / 25"]
  by (simp add: predict_response_def decompose_factors_def raw_traffic_adjustment_def Let_def
      rush_trip_def exact_arith_def py_round1_def round_half_even_def)

lemma sample_trip_factors:
  "response_factors (predict_response ar ''baseline'' sample_trip p) =
     \<lparr> base_time = round1 ar (float_mul ar 1 3), traffic_adjustment = 0, weather_impact = 0,
       zone_complexity = round1 ar (float_sub ar (float_sub ar p (float_mul ar 1 3)) 0) \<rparr>"
  by (simp add: predict_response_def decompose_factors_def raw_traffic_adjustment_def sample_trip_def
      get_is_friday_prayer_def Let_def)

lemma no_tenth_near:
  fixes k :: int and s z y :: real
  assumes "\<bar>s - 186 / 25\<bar> \<le> 1 / 10000 * (1 + \<bar>186 / 25 :: real\<bar>)"
    and "\<bar>z - s\<bar> \<le> 1 / 10000 * (1 + \<bar>s\<bar>)"
    and "\<bar>real_of_int k / 10 - z\<bar> \<le> 1 / 20 + 1 / 10000 * (1 + \<bar>z\<bar>)"
    and "\<bar>y - real_of_int k / 10\<bar> \<le> 1 / 10000 * (1 + \<bar>real_of_int k / 10\<bar>)"
  shows "1 / 100 < \<bar>3 + 0 + 0 + y - 261 / 25\<bar>"
proof -
  define q where "q = real_of_int k / 10"
  have 1: "\<bar>s - 186 / 25\<bar> \<le> 1 / 1000" using assms(1) by simp
  then have "\<bar>s\<bar> \<le> 8" by argo
  with assms(2) have 2: "\<bar>z - s\<bar> \<le> 1 / 1000" by argo
  with 1 have "\<bar>z\<bar> \<le> 8" by argo
  with assms(3) have 3: "\<bar>q - z\<bar> \<le> 1 / 20 + 1 / 1000" unfolding q_def by argo
  with 1 2 have "\<bar>q\<bar> \<le> 9" by argo
  with assms(4) have 4: "\<bar>y - q\<bar> \<le> 1 / 1000" unfolding q_def by argo
  have "real_of_int k \<le> 74 \<or> 75 \<le> real_of_int k"
  proof -
    have "k \<le> 74 \<or> 75 \<le> k" by linarith
    then show ?thesis by (metis of_int_le_iff of_int_numeral)
  qed
  then have "q \<le> 74 / 10 \<or> 75 / 10 \<le> q" unfolding q_def by argo
  then show ?thesis using 4 by argo
qed

text \<open>
  A baseline prediction of 10.44 minutes over distance 1, outside rush hour. In exact
  arithmetic the factors are 3.0, 0, 0 and 7.4 and sum to 10.4, four hundredths short of
  the estimate; and whatever float operations accurate to one part in ten thousand
  compute the factors, their sum misses the estimate by more than one hundredth.
\<close>

theorem factors_sum_counterexample:
  "base_time (response_factors (predict_response exact_arith ''baseline'' sample_trip (261 / 25)))
     + traffic_adjustment (response_factors (predict_response exact_arith ''baseline'' sample_trip (261 / 25)))
     + weather_impact (response_factors (predict_response exact_arith ''baseline'' sample_trip (261 / 25)))
     + zone_complexity (response_factors (predict_response exact_arith ''baseline'' sample_trip (261 / 25))) = 52 / 5 \<and>
   estimated_duration_minutes (predict_response exact_arith ''baseline'' sample_trip (261 / 25)) = 261 / 25 \<and>
   (52 / 5 :: real) \<noteq> 261 / 25 \<and>
   \<not> (\<exists>ar. accurate (1 / 10000) ar \<and> exact_base ar (dubai_distance sample_trip) \<and>
          \<bar>base_time (response_factors (predict_response ar ''baseline'' sample_trip (261 / 25)))
            + traffic_adjustment (response_factors (predict_response ar ''baseline'' sample_trip (261 / 25)))
            + weather_impact (response_factors (predict_response ar ''baseline'' sample_trip (261 / 25)))
            + zone_complexity (response_factors (predict_response ar ''baseline'' sample_trip (261 / 25)))
            - estimated_duration_minutes (predict_response ar ''baseline'' sample_trip (261 / 25))\<bar>
            \<le> 1 / 100)"
proof -
  have inst: "base_time (response_factors (predict_response exact_arith ''baseline'' sample_trip (261 / 25)))
     + traffic_adjustment (response_factors (predict_response exact_arith ''baseline'' sample_trip (261 / 25)))
     + weather_impact (response_factors (predict_response exact_arith ''baseline'' sample_trip (261 / 25)))
     + zone_complexity (response_factors (predict_response exact_arith ''baseline'' sample_trip (261 / 25))) = 52 / 5"
    by (simp add: sample_trip_factors exact_arith_def py_round1_def round_half_even_def)
  have est: "\<And>ar. estimated_duration_minutes (predict_response ar ''baseline'' sample_trip (261 / 25)) = 261 / 25"
    by (simp add: predict_response_def)
  have gen: "1 / 100 < \<bar>base_time (response_factors (predict_response ar ''baseline'' sample_trip (261 / 25)))
            + traffic_adjustment (response_factors (predict_response ar ''baseline'' sample_trip (261 / 25)))
            + weather_impact (response_factors (predict_response ar ''baseline'' sample_trip (261 / 25)))
            + zone_complexity (response_factors (predict_response ar ''baseline'' sample_trip (261 / 25)))
            - estimated_duration_minutes (predict_response ar ''baseline'' sample_trip (261 / 25))\<bar>"
    if acc: "accurate (1 / 10000) ar" and ex: "exact_base ar (dubai_distance sample_trip)" for ar
  proof -
    from ex have mb: "float_mul ar 1 3 = 3" and rb: "round1 ar 3 = 3"
      by (simp_all add: exact_base_def sample_trip_def)
    define s where "s = float_sub ar (261 / 25) 3"
    define z where "z = float_sub ar s 0"
    from acc have sub: "\<And>x y. near (1 / 10000) (float_sub ar x y) (x - y)"
      and rz: "rounds_to_tenths (1 / 10000) (round1 ar)"
      by (simp_all add: accurate_def)
    have 1: "\<bar>s - 186 / 25\<bar> \<le> 1 / 10000 * (1 + \<bar>186 / 25 :: real\<bar>)"
      using sub [of "261 / 25" 3] by (simp add: s_def near_def)
    have 2: "\<bar>z - s\<bar> \<le> 1 / 10000 * (1 + \<bar>s\<bar>)"
      using sub [of s 0] by (simp add: z_def near_def)
    from rz obtain k :: int
      where 3: "\<bar>real_of_int k / 10 - z\<bar> \<le> 1 / 20 + 1 / 10000 * (1 + \<bar>z\<bar>)"
        and 4: "\<bar>round1 ar z - real_of_int k / 10\<bar> \<le> 1 / 10000 * (1 + \<bar>real_of_int k / 10\<bar>)"
      unfolding rounds_to_tenths_def near_def by blast
    from no_tenth_near [OF 1 2 3 4] show ?thesis
      unfolding sample_trip_factors est mb rb s_def [symmetric] z_def [symmetric] by simp
  qed
  have "\<not> (\<exists>ar. accurate (1 / 10000) ar \<and> exact_base ar (dubai_distance sample_trip) \<and>
          \<bar>base_time (response_factors (predict_response ar ''baseline'' sample_trip (261 / 25)))
            + traffic_adjustment (response_factors (predict_response ar ''baseline'' sample_trip (261 / 25)))
            + weather_impact (response_factors (predict_response ar ''baseline'' sample_trip (261 / 25)))
            + zone_complexity (response_factors (predict_response ar ''baseline'' sample_trip (261 / 25)))
            - estimated_duration_minutes (predict_response ar ''baseline'' sample_trip (261 / 25))\<bar>
            \<le> 1 / 100)"
    using gen by fastforce
  with inst est show ?thesis by simp
qed

text \<open>
  Claim C4, as the code has it. For a positive prediction the upper bound is above the
  point estimate. The lower bound is below it for a baseline prediction above 1 and for
  an advanced prediction above 0; for a baseline prediction in \<open>(0, 1]\<close> the floor
  makes the lower bound 1, which is at least the estimate. The baseline lower bound is
  \<open>max 1 (est - 1.96 * 0.15 * est)\<close>, the advanced bounds are
  \<open>est - 1.96 * 0.15 * est\<close> and \<open>est + 1.96 * 0.15 * est\<close>.
\<close>

theorem interval_brackets_estimate:
  fixes ar :: arith and model_type :: string and est :: real and trip :: trip_data
  defines "r \<equiv> predict_response ar model_type trip est"
  assumes "0 < est"
  shows "estimated_duration_minutes r < snd (confidence_interval r) \<and>
         (model_type \<noteq> ''baseline'' \<or> 1 < est \<longrightarrow>
            fst (confidence_interval r) < estimated_duration_minutes r) \<and>
         (model_type = ''baseline'' \<and> est \<le> 1 \<longrightarrow>
            fst (confidence_interval r) = 1 \<and>
            estimated_duration_minutes r \<le> fst (confidence_interval r)) \<and>
         (if model_type = ''baseline''
          then confidence_interval r = (max 1 (est - 1.96 * (0.15 * est)), est + 1.96 * (0.15 * est))
          else confidence_interval r = (est - 1.96 * (0.15 * est), est + 1.96 * (0.15 * est)))"
  using assms(2) unfolding r_def
  by (auto simp: predict_response_def simple_confidence_interval_def predict_with_confidence_def Let_def
      split: if_splits)

theorem interval_brackets_estimate_witness:
  "fst (confidence_interval (predict_response exact_arith ''baseline'' sample_trip 10)) = 706 / 100 \<and>
   snd (confidence_interval (predict_response exact_arith ''baseline'' sample_trip 10)) = 1294 / 100 \<and>
   fst (confidence_interval (predict_response exact_arith ''advanced'' sample_trip (1 / 2))) < 1 / 2 \<and>
   (1 / 2 :: real) < snd (confidence_interval (predict_response exact_arith ''advanced'' sample_trip (1 / 2))) \<and>
   fst (confidence_interval (predict_response exact_arith ''baseline'' sample_trip (3 / 4))) = 1 \<and>
   snd (confidence_interval (predict_response exact_arith ''baseline'' sample_trip (3 / 4))) = 3 / 4 + 1.96 * (0.15 * (3 / 4))"
  using interval_brackets_estimate [of 10 exact_arith "''baseline''" sample_trip]
    interval_brackets_estimate [of "1 / 2" exact_arith "''advanced''" sample_trip]
    interval_brackets_estimate [of "3 / 4" exact_arith "''baseline''" sample_trip]
  by simp

text \<open>
  A positive baseline prediction of half a minute: the floor at 1 puts the lower bound
  above the estimate (and above the upper bound 0.647).
\<close>

theorem baseline_interval_counterexample:
  "(0::real) < 1 / 2 \<and>
   confidence_interval (predict_response exact_arith ''baseline'' sample_trip (1 / 2)) = (1, 647 / 1000) \<and>
   \<not> fst (confidence_interval (predict_response exact_arith ''baseline'' sample_trip (1 / 2)))
       < estimated_duration_minutes (predict_response exact_arith ''baseline'' sample_trip (1 / 2))"
  by (simp add: predict_response_def simple_confidence_interval_def)

subsection \<open>Chronological split\<close>

lemma slices_partition:
  assumes "0 \<le> a" and "0 \<le> b"
  shows "py_slice xs 0 a @ py_slice xs a (a + b) @ py_slice xs (a + b) (int (length xs)) = xs"
proof -
  let ?n = "length xs"
  let ?i = "min ?n (nat a)" and ?j = "min ?n (nat (a + b))"
  have "nat a \<le> nat (a + b)" using assms by simp
  then have ij: "?i \<le> ?j" by (intro min.mono order_refl)
  have s0: "slice_bound ?n 0 = 0" by (simp add: slice_bound_def)
  have sa: "slice_bound ?n a = ?i" using assms by (simp add: slice_bound_def)
  have sb: "slice_bound ?n (a + b) = ?j" using assms by (simp add: slice_bound_def)
  have sn: "slice_bound ?n (int ?n) = ?n" by (simp add: slice_bound_def)
  have 1: "py_slice xs 0 a = take ?i xs"
    unfolding py_slice_def Let_def s0 sa by simp
  have 2: "py_slice xs a (a + b) = take (?j - ?i) (drop ?i xs)"
    unfolding py_slice_def Let_def sa sb by (rule refl)
  have 3: "py_slice xs (a + b) (int ?n) = drop ?j xs"
    unfolding py_slice_def Let_def sb sn by simp
  have "take (?j - ?i) (drop ?i xs) @ drop ?j xs = drop ?i xs"
    using ij by (metis append_take_drop_id drop_drop le_add_diff_inverse2)
  then show ?thesis unfolding 1 2 3 by (metis append_take_drop_id)
qed

lemma slices_lengths:
  assumes "0 \<le> a" and "0 \<le> b" and "a + b \<le> int (length xs)"
  shows "int (length (py_slice xs 0 a)) = a"
    and "int (length (py_slice xs a (a + b))) = b"
    and "int (length (py_slice xs (a + b) (int (length xs)))) = int (length xs) - a - b"
proof -
  let ?n = "length xs"
  have s0: "slice_bound ?n 0 = 0" by (simp add: slice_bound_def)
  have sa: "slice_bound ?n a = nat a" using assms by (simp add: slice_bound_def)
  have sb: "slice_bound ?n (a + b) = nat (a + b)" using assms by (simp add: slice_bound_def)
  have sn: "slice_bound ?n (int ?n) = ?n" by (simp add: slice_bound_def)
  show "int (length (py_slice xs 0 a)) = a"
    unfolding py_slice_def Let_def s0 sa using assms by simp
  show "int (length (py_slice xs a (a + b))) = b"
    unfolding py_slice_def Let_def sa sb using assms by simp
  show "int (length (py_slice xs (a + b) (int (length xs)))) = int (length xs) - a - b"
    unfolding py_slice_def Let_def sb sn using assms by simp
qed

lemma py_int_nonneg: "- 1 < x \<Longrightarrow> 0 \<le> py_int x"
  unfolding py_int_def by (simp; linarith)

lemma py_int_close: "\<bar>real_of_int (py_int x) - x\<bar> < 1"
  unfolding py_int_def by (simp; linarith)

lemma py_int_near_ratio:
  fixes m c :: nat
  assumes c: "0 < c" and x: "\<bar>x - real m / real c\<bar> < 1 / real c"
  shows "py_int x = int (m div c) \<or> (c dvd m \<and> 0 < m \<and> py_int x = int (m div c) - 1)"
proof -
  define q where "q = m div c"
  define r where "r = m mod c"
  have m: "m = c * q + r" and rc: "r < c" using c by (simp_all add: q_def r_def)
  have rc1: "real r + 1 \<le> real c" using rc by linarith
  have mq: "real m / real c = real q + real r / real c"
    using c by (simp add: m field_simps)
  have c1: "1 / real c \<le> 1" using c by simp
  show ?thesis
  proof (cases "r = 0")
    case True
    then have cm: "c dvd m" by (simp add: m)
    from x have xq: "\<bar>x - real q\<bar> < 1" using c1 True by (simp add: mq)
    show ?thesis
    proof (cases "real q \<le> x")
      case True
      then have "\<lfloor>x\<rfloor> = int q" using xq by (simp add: floor_unique)
      moreover have "0 \<le> x" using True by (meson of_nat_0_le_iff order_trans)
      ultimately show ?thesis by (simp add: py_int_def q_def)
    next
      case False
      show ?thesis
      proof (cases "0 \<le> x")
        case True
        with False have "0 < q" by (cases q) simp_all
        then have "0 < m" using c by (simp add: m)
        moreover have "\<lfloor>x\<rfloor> = int q - 1" using False xq by (intro floor_unique) simp_all
        ultimately show ?thesis using True cm by (simp add: py_int_def q_def)
      next
        case neg: False
        with xq have "real q < 1" by linarith
        then have q0: "q = 0" by simp
        have "\<lceil>x\<rceil> = 0" using neg xq q0 by (intro ceiling_unique) simp_all
        then show ?thesis using neg q0 by (simp add: py_int_def q_def)
      qed
    qed
  next
    case False
    then have r1: "1 \<le> real r" by simp
    have lo: "1 / real c \<le> real r / real c" using r1 c by (simp add: divide_right_mono)
    have hi: "real r / real c + 1 / real c \<le> 1"
    proof -
      have "real r / real c + 1 / real c = (real r + 1) / real c" by (simp add: add_divide_distrib)
      also have "\<dots> \<le> 1" using rc1 c by simp
      finally show ?thesis .
    qed
    from x lo hi have "real q < x" "x < real q + 1" unfolding mq by linarith+
    then have "\<lfloor>x\<rfloor> = int q" "0 \<le> x" by (simp_all add: floor_unique)
    then show ?thesis by (simp add: py_int_def q_def)
  qed
qed

lemma sort_key_sorts_by_time: "sorts_by_time (sort_key request_datetime)"
  by (simp add: sorts_by_time_def)

lemma sorts_by_time_length: "sorts_by_time srt \<Longrightarrow> length (srt xs) = length xs"
  unfolding sorts_by_time_def by (metis size_mset)

lemma split_data_parts:
  "split_data ar srt r1 r2 df =
     (py_slice (srt df) 0 (py_int (float_mul ar (real (length (srt df))) r1)),
      py_slice (srt df) (py_int (float_mul ar (real (length (srt df))) r1))
        (py_int (float_mul ar (real (length (srt df))) r1) + py_int (float_mul ar (real (length (srt df))) r2)),
      py_slice (srt df)
        (py_int (float_mul ar (real (length (srt df))) r1) + py_int (float_mul ar (real (length (srt df))) r2))
        (int (length (srt df))))"
  by (simp add: split_data_def Let_def)

lemma float_mul_lower:
  assumes "accurate e ar" and "e < 1" and "0 \<le> x" and "0 \<le> c"
  shows "- 1 < float_mul ar x c"
proof -
  from assms(1) have n: "\<bar>float_mul ar x c - x * c\<bar> \<le> e * (1 + \<bar>x * c\<bar>)" and e0: "0 \<le> e"
    by (simp_all add: accurate_def near_def)
  have xc: "0 \<le> x * c" using assms(3,4) by simp
  have "e * (x * c) \<le> 1 * (x * c)" using assms(2) xc by (intro mult_right_mono) simp_all
  then have "e * (1 + \<bar>x * c\<bar>) < 1 + x * c" using assms(2) xc by (simp add: algebra_simps)
  with n show ?thesis by linarith
qed

text \<open>
  Whatever sizes the two products give, as long as the ratios are not negative, the
  three parts concatenate to the sorted frame.
\<close>

lemma split_data_any_ratio:
  fixes df :: "'a trip_row_scheme list"
  assumes "accurate e ar" and "e < 1" and "0 \<le> train_ratio" and "0 \<le> val_ratio"
    and "split_data ar srt train_ratio val_ratio df = (train, val, test)"
  shows "train @ val @ test = srt df"
proof -
  let ?s = "srt df"
  let ?a = "py_int (float_mul ar (real (length ?s)) train_ratio)"
  let ?b = "py_int (float_mul ar (real (length ?s)) val_ratio)"
  have "0 \<le> ?a" "0 \<le> ?b"
    using assms(1-4) by (simp_all add: py_int_nonneg float_mul_lower)
  from slices_partition [OF this, of ?s] assms(5) show ?thesis
    by (simp add: split_data_parts)
qed

text \<open>
  The sizes: truncating an accurate product of \<open>N\<close> and the ratio gives a number of
  rows within one of the exact product; and when the error of the product stays below
  one twentieth it is the floor of the exact product, or one less where the exact
  product is whole and the float product falls below it.
\<close>

lemma split_sizes:
  fixes N :: nat
  assumes acc: "accurate e ar" and e: "e \<le> 1 / 100"
  defines "a \<equiv> py_int (float_mul ar (real N) (7 / 10))"
  defines "b \<equiv> py_int (float_mul ar (real N) (3 / 20))"
  shows "0 \<le> a" and "0 \<le> b" and "a + b \<le> int N"
    and "\<bar>real_of_int a - (7 / 10) * real N\<bar> < 1 + e * (1 + real N)"
    and "\<bar>real_of_int b - (3 / 20) * real N\<bar> < 1 + e * (1 + real N)"
proof -
  let ?p = "float_mul ar (real N) (7 / 10)" and ?q = "float_mul ar (real N) (3 / 20)"
  have e0: "0 \<le> e"
    and np: "\<bar>?p - real N * (7 / 10)\<bar> \<le> e * (1 + \<bar>real N * (7 / 10)\<bar>)"
    and nq: "\<bar>?q - real N * (3 / 20)\<bar> \<le> e * (1 + \<bar>real N * (3 / 20)\<bar>)"
    by (rule accurate_nonneg [OF acc] accurate_mul [OF acc])+
  have e1: "e < 1" using e by simp
  show a0: "0 \<le> a" and b0: "0 \<le> b"
    unfolding a_def b_def using acc e1 by (simp_all add: py_int_nonneg float_mul_lower)
  have wp: "e * (1 + \<bar>real N * (7 / 10)\<bar>) \<le> e * (1 + real N)"
    and wq: "e * (1 + \<bar>real N * (3 / 20)\<bar>) \<le> e * (1 + real N)"
    using e0 by (intro mult_left_mono; simp)+
  have ca: "\<bar>real_of_int a - ?p\<bar> < 1" and cb: "\<bar>real_of_int b - ?q\<bar> < 1"
    unfolding a_def b_def by (rule py_int_close)+
  show "\<bar>real_of_int a - (7 / 10) * real N\<bar> < 1 + e * (1 + real N)"
    using ca np wp by argo
  show "\<bar>real_of_int b - (3 / 20) * real N\<bar> < 1 + e * (1 + real N)"
    using cb nq wq by argo
  have w100: "e * (1 + real N) \<le> 1 / 100 * (1 + real N)"
    using e by (intro mult_right_mono) simp_all
  have ua: "real_of_int a \<le> max 0 ?p" and ub: "real_of_int b \<le> max 0 ?q"
    unfolding a_def b_def py_int_def by (simp_all; linarith)+
  have n0: "0 \<le> real N" by simp
  have mp: "max 0 ?p \<le> (7 / 10) * real N + 1 / 100 * (1 + real N)" using np wp w100 n0 by argo
  have mq: "max 0 ?q \<le> (3 / 20) * real N + 1 / 100 * (1 + real N)" using nq wq w100 n0 by argo
  have "real_of_int a + real_of_int b < real N + 1" using mp mq ua ub n0 by argo
  then have "real_of_int (a + b) < real N + 1" by simp
  then have "a + b < int N + 1" by (metis of_int_add of_int_less_iff of_int_of_nat_eq of_int_1)
  then show "a + b \<le> int N" by simp
qed

lemma split_sizes_sharp:
  fixes N :: nat
  assumes acc: "accurate e ar" and e: "e * (1 + real N) < 1 / 20"
  defines "a \<equiv> py_int (float_mul ar (real N) (7 / 10))"
  defines "b \<equiv> py_int (float_mul ar (real N) (3 / 20))"
  shows "a = int ((7 * N) div 10) \<or> (10 dvd N \<and> 0 < N \<and> a = int ((7 * N) div 10) - 1)"
    and "b = int ((3 * N) div 20) \<or> (20 dvd N \<and> 0 < N \<and> b = int ((3 * N) div 20) - 1)"
proof -
  let ?p = "float_mul ar (real N) (7 / 10)" and ?q = "float_mul ar (real N) (3 / 20)"
  have e0: "0 \<le> e"
    and np: "\<bar>?p - real N * (7 / 10)\<bar> \<le> e * (1 + \<bar>real N * (7 / 10)\<bar>)"
    and nq: "\<bar>?q - real N * (3 / 20)\<bar> \<le> e * (1 + \<bar>real N * (3 / 20)\<bar>)"
    by (rule accurate_nonneg [OF acc] accurate_mul [OF acc])+
  have wp: "e * (1 + \<bar>real N * (7 / 10)\<bar>) \<le> e * (1 + real N)"
    and wq: "e * (1 + \<bar>real N * (3 / 20)\<bar>) \<le> e * (1 + real N)"
    using e0 by (intro mult_left_mono; simp)+
  have "\<bar>?p - real N * (7 / 10)\<bar> < 1 / 10" using np wp e by linarith
  moreover have "real (7 * N) / real 10 = real N * (7 / 10)" by simp
  ultimately have "\<bar>?p - real (7 * N) / real 10\<bar> < 1 / real 10" by (simp only: of_nat_numeral)
  from py_int_near_ratio [OF _ this]
  have "a = int ((7 * N) div 10) \<or> (10 dvd 7 * N \<and> 0 < 7 * N \<and> a = int ((7 * N) div 10) - 1)"
    unfolding a_def by simp
  moreover have "10 dvd 7 * N \<longleftrightarrow> 10 dvd N" by presburger
  ultimately show "a = int ((7 * N) div 10) \<or> (10 dvd N \<and> 0 < N \<and> a = int ((7 * N) div 10) - 1)"
    by auto
  have "\<bar>?q - real N * (3 / 20)\<bar> < 1 / 20" using nq wq e by linarith
  moreover have "real (3 * N) / real 20 = real N * (3 / 20)" by simp
  ultimately have "\<bar>?q - real (3 * N) / real 20\<bar> < 1 / real 20" by (simp only: of_nat_numeral)
  from py_int_near_ratio [OF _ this]
  have "b = int ((3 * N) div 20) \<or> (20 dvd 3 * N \<and> 0 < 3 * N \<and> b = int ((3 * N) div 20) - 1)"
    unfolding b_def by simp
  moreover have "20 dvd 3 * N \<longleftrightarrow> 20 dvd N" by presburger
  ultimately show "b = int ((3 * N) div 20) \<or> (20 dvd N \<and> 0 < N \<and> b = int ((3 * N) div 20) - 1)"
    by auto
qed

text \<open>
  Claim C6, as the code has it. With ratios 0.7 and 0.15 and float products accurate
  to \<open>e\<close>, a frame of \<open>N\<close> rows is cut into parts of \<^verbatim>\<open>int(N * 0.7)\<close>, \<^verbatim>\<open>int(N * 0.15)\<close>
  and the remaining rows, the products being the float products. The first two sizes
  are within \<open>1 + e * (1 + N)\<close> of \<open>0.7 N\<close> and \<open>0.15 N\<close>; when \<open>e * (1 + N)\<close> is
  below one twentieth they are \<open>\<lfloor>0.7 N\<rfloor>\<close> and \<open>\<lfloor>0.15 N\<rfloor>\<close>, or one less where the
  exact product is whole. The parts concatenate to the frame as the library's sort
  returns it, so they partition the input, and no training row is later than a
  validation or test row, no validation row later than a test row.
\<close>

theorem split_data_chronological:
  fixes df :: "'a trip_row_scheme list" and ar :: arith and e :: real
    and sort_values :: "'a trip_row_scheme list \<Rightarrow> 'a trip_row_scheme list"
  defines "N \<equiv> length df"
  assumes "accurate e ar" and "e \<le> 1 / 100" and "sorts_by_time sort_values"
    and "split_data ar sort_values 0.7 0.15 df = (train, val, test)"
  shows "int (length train) = py_int (float_mul ar (real N) 0.7) \<and>
         int (length val) = py_int (float_mul ar (real N) 0.15) \<and>
         length train + length val + length test = N \<and>
         \<bar>real (length train) - 0.7 * real N\<bar> < 1 + e * (1 + real N) \<and>
         \<bar>real (length val) - 0.15 * real N\<bar> < 1 + e * (1 + real N) \<and>
         (e * (1 + real N) < 1 / 20 \<longrightarrow>
            (length train = (7 * N) div 10 \<or>
             10 dvd N \<and> 0 < N \<and> length train + 1 = (7 * N) div 10) \<and>
            (length val = (3 * N) div 20 \<or>
             20 dvd N \<and> 0 < N \<and> length val + 1 = (3 * N) div 20)) \<and>
         train @ val @ test = sort_values df \<and>
         mset (train @ val @ test) = mset df \<and>
         (\<forall>t\<in>set train. \<forall>v\<in>set val. request_datetime t \<le> request_datetime v) \<and>
         (\<forall>v\<in>set val. \<forall>u\<in>set test. request_datetime v \<le> request_datetime u) \<and>
         (\<forall>t\<in>set train. \<forall>u\<in>set test. request_datetime t \<le> request_datetime u)"
proof -
  let ?s = "sort_values df"
  define a where "a = py_int (float_mul ar (real N) (7 / 10))"
  define b where "b = py_int (float_mul ar (real N) (3 / 20))"
  have n: "length ?s = N" unfolding N_def by (rule sorts_by_time_length [OF assms(4)])
  note sz = split_sizes [OF assms(2,3), of N, folded a_def b_def]
  have ab: "a + b \<le> int (length ?s)" unfolding n by (rule sz(3))
  from assms(5) have tr: "train = py_slice ?s 0 a" and va: "val = py_slice ?s a (a + b)"
    and te: "test = py_slice ?s (a + b) (int (length ?s))"
    unfolding split_data_parts n a_def b_def by simp_all
  note ln = slices_lengths [OF sz(1,2) ab, folded tr va te]
  have l1: "int (length train) = py_int (float_mul ar (real N) 0.7)"
    using ln(1) by (simp add: a_def)
  have l2: "int (length val) = py_int (float_mul ar (real N) 0.15)"
    using ln(2) by (simp add: b_def)
  have l3: "length train + length val + length test = N"
    using ln n by linarith
  have ra: "real (length train) = real_of_int a" and rv: "real (length val) = real_of_int b"
    using ln(1,2) by (metis of_int_of_nat_eq)+
  have b1: "\<bar>real (length train) - 0.7 * real N\<bar> < 1 + e * (1 + real N)"
    unfolding ra using sz(4) by simp
  have b2: "\<bar>real (length val) - 0.15 * real N\<bar> < 1 + e * (1 + real N)"
    unfolding rv using sz(5) by simp
  have sh: "e * (1 + real N) < 1 / 20 \<longrightarrow>
            (length train = (7 * N) div 10 \<or>
             10 dvd N \<and> 0 < N \<and> length train + 1 = (7 * N) div 10) \<and>
            (length val = (3 * N) div 20 \<or>
             20 dvd N \<and> 0 < N \<and> length val + 1 = (3 * N) div 20)"
  proof
    assume "e * (1 + real N) < 1 / 20"
    note sp = split_sizes_sharp [OF assms(2) this, folded a_def b_def]
    from sp(1) ln(1) have 1: "length train = (7 * N) div 10 \<or>
             10 dvd N \<and> 0 < N \<and> length train + 1 = (7 * N) div 10" by linarith
    from sp(2) ln(2) have 2: "length val = (3 * N) div 20 \<or>
             20 dvd N \<and> 0 < N \<and> length val + 1 = (3 * N) div 20" by linarith
    from 1 2 show "(length train = (7 * N) div 10 \<or>
             10 dvd N \<and> 0 < N \<and> length train + 1 = (7 * N) div 10) \<and>
            (length val = (3 * N) div 20 \<or>
             20 dvd N \<and> 0 < N \<and> length val + 1 = (3 * N) div 20)" by (rule conjI)
  qed
  have cat: "train @ val @ test = ?s"
    unfolding tr va te by (rule slices_partition [OF sz(1,2)])
  from assms(4) have ms0: "mset ?s = mset df" and so: "sorted (map request_datetime ?s)"
    by (simp_all add: sorts_by_time_def)
  have ms: "mset (train @ val @ test) = mset df" unfolding cat by (rule ms0)
  have srt: "sorted (map request_datetime (train @ val @ test))" unfolding cat by (rule so)
  then have o1: "\<forall>t\<in>set train. \<forall>v\<in>set val. request_datetime t \<le> request_datetime v"
    and o3: "\<forall>t\<in>set train. \<forall>u\<in>set test. request_datetime t \<le> request_datetime u"
    by (auto simp: sorted_append)
  from srt have o2: "\<forall>v\<in>set val. \<forall>u\<in>set test. request_datetime v \<le> request_datetime u"
    by (auto simp: sorted_append)
  show ?thesis by (intro conjI l1 l2 l3 b1 b2 sh cat ms o1 o2 o3)
qed

theorem split_data_chronological_witness:
  "split_data exact_arith (sort_key request_datetime) 0.7 0.15 ten_trips =
     (map (\<lambda>t. \<lparr> request_datetime = t \<rparr>) [1, 2, 3, 4, 5, 6, 7],
      map (\<lambda>t. \<lparr> request_datetime = t \<rparr>) [8],
      map (\<lambda>t. \<lparr> request_datetime = t \<rparr>) [9, 10]) \<and>
   int (length (map (\<lambda>t. \<lparr> request_datetime = t \<rparr>) [1, 2, 3, 4, 5, 6, 7 :: int])) =
     py_int (float_mul exact_arith (real (length ten_trips)) 0.7) \<and>
   length (map (\<lambda>t. \<lparr> request_datetime = t \<rparr>) [1, 2, 3, 4, 5, 6, 7 :: int]) = (7 * length ten_trips) div 10"
proof -
  have s: "split_data exact_arith (sort_key request_datetime) 0.7 0.15 ten_trips =
     (map (\<lambda>t. \<lparr> request_datetime = t \<rparr>) [1, 2, 3, 4, 5, 6, 7],
      map (\<lambda>t. \<lparr> request_datetime = t \<rparr>) [8],
      map (\<lambda>t. \<lparr> request_datetime = t \<rparr>) [9, 10])"
    by (simp add: split_data_def exact_arith_def ten_trips_def py_int_def py_slice_def slice_bound_def)
  have l: "length ten_trips = 10" by (simp add: ten_trips_def)
  from split_data_chronological [OF exact_arith_accurate _ sort_key_sorts_by_time s] s l
  show ?thesis by simp
qed

text \<open>
  Ten rows: in exact arithmetic the validation part has 1 row and the test part 2; and
  whatever the float operations and the sort, neither has 1.5 rows.
\<close>

theorem split_sizes_counterexample:
  "length ten_trips = 10 \<and>
   length (fst (snd (split_data exact_arith (sort_key request_datetime) 0.7 0.15 ten_trips))) = 1 \<and>
   length (snd (snd (split_data exact_arith (sort_key request_datetime) 0.7 0.15 ten_trips))) = 2 \<and>
   \<not> (\<exists>ar sort_values.
         real (length (fst (snd (split_data ar sort_values 0.7 0.15 ten_trips))))
           = 0.15 * real (length ten_trips)) \<and>
   \<not> (\<exists>ar sort_values.
         real (length (snd (snd (split_data ar sort_values 0.7 0.15 ten_trips))))
           = real (length ten_trips) - 0.85 * real (length ten_trips))"
proof -
  have l: "length ten_trips = 10" by (simp add: ten_trips_def)
  have i: "length (fst (snd (split_data exact_arith (sort_key request_datetime) 0.7 0.15 ten_trips))) = 1"
    "length (snd (snd (split_data exact_arith (sort_key request_datetime) 0.7 0.15 ten_trips))) = 2"
    by (simp_all add: split_data_def exact_arith_def ten_trips_def py_int_def py_slice_def slice_bound_def)
  have h: "real n \<noteq> 3 / 2" for n :: nat
  proof
    assume "real n = 3 / 2"
    then have "real (2 * n) = real 3" by simp
    then have "2 * n = 3" by (simp only: of_nat_eq_iff)
    then show False by presburger
  qed
  show ?thesis unfolding l using i h by simp
qed

subsection \<open>Frame effects of \<^verbatim>\<open>transform\<close>\<close>

lemma seq_cases:
  assumes "seq m k w = (r, w')"
  obtains (raised) e where "m w = (Inl e, w')" "r = Inl e"
  | (returned) x w1 where "m w = (Inr x, w1)" "k x w1 = (r, w')"
  using assms unfolding seq_def by (auto split: prod.splits sum.splits)

lemma seq_Inr:
  assumes "seq m k w = (Inr y, w')"
  obtains x w1 where "m w = (Inr x, w1)" "k x w1 = (Inr y, w')"
  using assms by (auto elim: seq_cases)

lemma unchanged_refl: "unchanged_below n w w"
  by (simp add: unchanged_below_def)

lemma unchanged_trans:
  "unchanged_below n w w1 \<Longrightarrow> unchanged_below n w1 w2 \<Longrightarrow> unchanged_below n w w2"
  by (simp add: unchanged_below_def)

lemma eval_same: "eval g w = (r, w') \<Longrightarrow> w' = w \<and> r = g w"
  by (auto simp: eval_def)

lemma new_frame_effect:
  assumes "new_frame f w = (r, w')"
  shows "r = Inr (length (frames w))" "frames w' = frames w @ [f]" "engineer w' = engineer w"
  using assms by (auto simp: new_frame_def)

lemma new_frame_unchanged:
  "new_frame f w = (r, w') \<Longrightarrow> n \<le> length (frames w) \<Longrightarrow> unchanged_below n w w'"
  by (auto simp: new_frame_def unchanged_below_def)

lemma exec_unchanged:
  "exec s a w = (r, w') \<Longrightarrow> n \<le> a \<Longrightarrow> unchanged_below n w w'"
  by (auto simp: exec_def unchanged_below_def split: sum.splits)

lemma exec_all_unchanged:
  "exec_all ss a w = (r, w') \<Longrightarrow> n \<le> a \<Longrightarrow> unchanged_below n w w'"
proof (induction ss arbitrary: w r)
  case Nil
  then show ?case by (simp add: ret_def unchanged_refl)
next
  case (Cons s ss)
  from Cons.prems(1) have "seq (exec s a) (\<lambda>_. exec_all ss a) w = (r, w')" by simp
  then show ?case
  proof (cases rule: seq_cases)
    case (raised e)
    then show ?thesis using Cons.prems(2) by (auto intro: exec_unchanged)
  next
    case (returned x w1)
    then show ?thesis
      using Cons.IH [of w1 r] Cons.prems(2) by (auto intro: unchanged_trans exec_unchanged)
  qed
qed

lemma modify_frame_unchanged:
  "modify_frame a g w = (r, w') \<Longrightarrow> n \<le> a \<Longrightarrow> unchanged_below n w w'"
  by (auto simp: modify_frame_def unchanged_below_def)

lemma build_features_unchanged:
  assumes "build_features df w = (r, w')" and "n \<le> length (frames w)"
  shows "unchanged_below n w w'"
proof -
  from assms(1) have "seq (frame_copy df) (\<lambda>features.
     seq (exec_all feature_statements features) (\<lambda>_.
     seq (eval (\<lambda>w. get_dummies (frames w ! features) categorical_cols)) (\<lambda>encoded.
     new_frame encoded))) w = (r, w')"
    by (simp add: build_features_def)
  then show ?thesis
  proof (cases rule: seq_cases)
    case (raised e)
    then show ?thesis using assms(2) by (auto simp: frame_copy_def intro: new_frame_unchanged)
  next
    case (returned features w1)
    from returned(1) have f: "features = length (frames w)" and u1: "unchanged_below n w w1"
      using assms(2) by (auto simp: frame_copy_def dest: new_frame_effect new_frame_unchanged)
    from returned(2) show ?thesis
    proof (cases rule: seq_cases)
      case (raised e)
      then show ?thesis using u1 f assms(2) by (auto intro: unchanged_trans exec_all_unchanged)
    next
      case (returned u w2)
      from returned(1) have u2: "unchanged_below n w1 w2"
        using f assms(2) by (auto intro: exec_all_unchanged)
      from returned(2) show ?thesis
      proof (cases rule: seq_cases)
        case (raised e)
        then show ?thesis using u1 u2 by (auto dest!: eval_same intro: unchanged_trans)
      next
        case (returned encoded w3)
        from returned(1) have "w3 = w2" by (auto dest: eval_same)
        moreover have "n \<le> length (frames w2)"
          using u1 u2 assms(2) by (simp add: unchanged_below_def)
        ultimately have "unchanged_below n w2 w'"
          using returned(2) by (auto intro: new_frame_unchanged)
        then show ?thesis using u1 u2 by (auto intro: unchanged_trans)
      qed
    qed
  qed
qed

lemma build_features_address:
  assumes "build_features df w = (Inr a, w')"
  shows "length (frames w) \<le> a" "a < length (frames w')"
proof -
  from assms have "seq (frame_copy df) (\<lambda>features.
     seq (exec_all feature_statements features) (\<lambda>_.
     seq (eval (\<lambda>w. get_dummies (frames w ! features) categorical_cols)) (\<lambda>encoded.
     new_frame encoded))) w = (Inr a, w')"
    by (simp add: build_features_def)
  then obtain features w1 where 1: "frame_copy df w = (Inr features, w1)"
    and "seq (exec_all feature_statements features) (\<lambda>_.
     seq (eval (\<lambda>w. get_dummies (frames w ! features) categorical_cols)) (\<lambda>encoded.
     new_frame encoded)) w1 = (Inr a, w')"
    by (rule seq_Inr)
  then obtain u w2 where 2: "exec_all feature_statements features w1 = (Inr u, w2)"
    and "seq (eval (\<lambda>w. get_dummies (frames w ! features) categorical_cols)) (\<lambda>encoded.
     new_frame encoded) w2 = (Inr a, w')"
    by (auto elim: seq_Inr)
  then obtain encoded w3 where 3: "eval (\<lambda>w. get_dummies (frames w ! features) categorical_cols) w2 = (Inr encoded, w3)"
    and 4: "new_frame encoded w3 = (Inr a, w')"
    by (auto elim: seq_Inr)
  have "unchanged_below 0 w w1" using 1 by (auto simp: frame_copy_def intro: new_frame_unchanged)
  moreover have "unchanged_below 0 w1 w2" using 2 by (auto intro: exec_all_unchanged)
  moreover have "w3 = w2" using 3 by (auto dest: eval_same)
  ultimately have "length (frames w) \<le> length (frames w3)" by (simp add: unchanged_below_def)
  with 4 show "length (frames w) \<le> a" "a < length (frames w')"
    by (auto simp: new_frame_def)
qed

lemma align_columns_unchanged:
  assumes "align_columns a w = (r, w')" and "n \<le> a" and "n \<le> length (frames w)"
  shows "unchanged_below n w w'"
proof (cases "training_columns (engineer w)")
  case None
  with assms show ?thesis by (simp add: align_columns_def ret_def unchanged_refl)
next
  case (Some cols)
  with assms(1) have "seq (modify_frame a (add_missing cols)) (\<lambda>_.
          seq (eval (\<lambda>w. select (frames w ! a) cols)) (\<lambda>selected.
          new_frame selected)) w = (r, w')"
    by (simp add: align_columns_def)
  then show ?thesis
  proof (cases rule: seq_cases)
    case (raised e)
    then show ?thesis using assms(2) by (auto intro: modify_frame_unchanged)
  next
    case (returned u w1)
    from returned(1) have u1: "unchanged_below n w w1"
      using assms(2) by (auto intro: modify_frame_unchanged)
    from returned(2) show ?thesis
    proof (cases rule: seq_cases)
      case (raised e)
      then show ?thesis using u1 by (auto dest!: eval_same)
    next
      case (returned selected w2)
      from returned(1) have "w2 = w1" by (auto dest: eval_same)
      moreover have "n \<le> length (frames w1)" using u1 assms(3) by (simp add: unchanged_below_def)
      ultimately have "unchanged_below n w1 w'" using returned(2) by (auto intro: new_frame_unchanged)
      then show ?thesis using u1 by (auto intro: unchanged_trans)
    qed
  qed
qed

lemma transform_unchanged:
  assumes "transform df w = (r, w')" and "n \<le> length (frames w)"
  shows "unchanged_below n w w'"
proof -
  from assms(1) have "seq check_fitted (\<lambda>_. seq (build_features df) (\<lambda>features. align_columns features)) w = (r, w')"
    by (simp add: transform_def)
  then show ?thesis
  proof (cases rule: seq_cases)
    case (raised e)
    then show ?thesis by (auto simp: check_fitted_def dest!: eval_same intro: unchanged_refl)
  next
    case (returned u w1)
    from returned(1) have w1: "w1 = w" by (auto simp: check_fitted_def dest!: eval_same)
    from returned(2) show ?thesis
    proof (cases rule: seq_cases)
      case (raised e)
      then show ?thesis using w1 assms(2) by (auto intro: build_features_unchanged)
    next
      case (returned features w2)
      have u2: "unchanged_below n w w2"
        using returned(1) w1 assms(2) by (auto intro: build_features_unchanged)
      have "n \<le> features" "n \<le> length (frames w2)"
        using build_features_address [OF returned(1)] w1 assms(2) by simp_all
      then have "unchanged_below n w2 w'"
        using returned(2) by (auto intro: align_columns_unchanged)
      then show ?thesis using u2 by (auto intro: unchanged_trans)
    qed
  qed
qed

lemma ebind_Inr: "ebind m k = Inr y \<Longrightarrow> \<exists>x. m = Inr x \<and> k x = Inr y"
  by (cases m) (simp_all add: ebind_def)

lemma those_err_Inr:
  "those_err rs = Inr xs \<Longrightarrow> rs = map Inr xs"
proof (induction rs arbitrary: xs)
  case Nil
  then show ?case by simp
next
  case (Cons r rs)
  then show ?case
    by (cases r) (auto dest!: ebind_Inr)
qed

lemma select_Inr:
  assumes "select f names = Inr g"
  shows "g = map (\<lambda>name. (name, the (map_of f name))) names \<and> set names \<subseteq> dom (map_of f)"
  using assms
proof (induction names arbitrary: g)
  case Nil
  then show ?case by (simp add: select_def)
next
  case (Cons name names)
  from Cons.prems obtain col rest where c: "map_of f name = Some col"
    and r: "select f names = Inr rest" and g: "g = (name, col) # rest"
    by (auto simp: select_def getitem_def ebind_def split: option.splits sum.splits)
  from Cons.IH [OF r] c g show ?case by auto
qed

lemma select_columns: "select f names = Inr g \<Longrightarrow> columns g = names"
  by (drule select_Inr) (simp add: columns_def comp_def)

lemma map_of_tabulate:
  "c \<in> set names \<Longrightarrow> map_of (map (\<lambda>name. (name, h name)) names) c = Some (h c)"
  by (induction names) auto

lemma select_getitem:
  assumes "select f names = Inr g" and "c \<in> set names"
  shows "getitem g c = getitem f c"
proof -
  from select_Inr [OF assms(1)] have g: "g = map (\<lambda>name. (name, the (map_of f name))) names"
    and d: "c \<in> dom (map_of f)" using assms(2) by auto
  from d obtain col where "map_of f c = Some col" by auto
  then show ?thesis using assms(2) by (simp add: getitem_def g map_of_tabulate)
qed

lemma columns_setitem_new:
  "c \<notin> set (columns f) \<Longrightarrow> columns (setitem c v f) = columns f @ [c]"
  by (simp add: columns_def setitem_def update_keys)

lemma nrows_setitem_new:
  "c \<notin> set (columns f) \<Longrightarrow> length v = nrows f \<Longrightarrow> nrows (setitem c v f) = nrows f"
  by (cases f) (auto simp: columns_def setitem_def nrows_def)

lemma map_of_setitem: "map_of (setitem c v f) = (map_of f)(c \<mapsto> v)"
  by (simp add: setitem_def update_conv')

lemma in_columns_iff: "c \<in> set (columns f) \<longleftrightarrow> map_of f c \<noteq> None"
  by (simp add: columns_def map_of_eq_None_iff)

lemma add_missing_lookup:
  "map_of (add_missing cols f) c =
     (if c \<in> set (columns f) then map_of f c
      else if c \<in> set cols then Some (replicate (nrows f) (Num 0)) else None)"
proof (induction cols arbitrary: f)
  case Nil
  then show ?case by (auto simp: in_columns_iff)
next
  case (Cons col cols)
  show ?case
  proof (cases "col \<in> set (columns f)")
    case True
    then show ?thesis using Cons.IH [of f] by auto
  next
    case False
    let ?f = "setitem col (replicate (nrows f) (Num 0)) f"
    have n: "nrows ?f = nrows f" using False by (simp add: nrows_setitem_new)
    have k: "set (columns ?f) = insert col (set (columns f))"
      using False by (simp add: columns_setitem_new)
    have "map_of (add_missing (col # cols) f) c = map_of (add_missing cols ?f) c"
      using False by simp
    also have "\<dots> = (if c \<in> set (columns ?f) then map_of ?f c
      else if c \<in> set cols then Some (replicate (nrows ?f) (Num 0)) else None)"
      by (rule Cons.IH)
    finally show ?thesis
      using False by (auto simp: n k map_of_setitem in_columns_iff)
  qed
qed

lemma add_missing_getitem:
  assumes "c \<in> set cols"
  shows "getitem (add_missing cols f) c =
     (if c \<in> set (columns f) then getitem f c else Inr (replicate (nrows f) (Num 0)))"
  using assms by (simp add: getitem_def add_missing_lookup)

lemma align_columns_result:
  assumes a: "align_columns a w = (Inr out, w')"
    and t: "training_columns (engineer w) = Some cols"
    and l: "a < length (frames w)"
  shows "columns (frames w' ! out) = cols"
    and "\<forall>c\<in>set cols. getitem (frames w' ! out) c =
           (if c \<in> set (columns (frames w ! a)) then getitem (frames w ! a) c
            else Inr (replicate (nrows (frames w ! a)) (Num 0)))"
proof -
  from a t have "seq (modify_frame a (add_missing cols)) (\<lambda>_.
          seq (eval (\<lambda>w. select (frames w ! a) cols)) (\<lambda>selected.
          new_frame selected)) w = (Inr out, w')"
    by (simp add: align_columns_def)
  then obtain u w1 where m: "modify_frame a (add_missing cols) w = (Inr u, w1)"
    and "seq (eval (\<lambda>w. select (frames w ! a) cols)) (\<lambda>selected. new_frame selected) w1 = (Inr out, w')"
    by (rule seq_Inr)
  then obtain sel w2 where e: "eval (\<lambda>w. select (frames w ! a) cols) w1 = (Inr sel, w2)"
    and n: "new_frame sel w2 = (Inr out, w')"
    by (auto elim: seq_Inr)
  from m l have f1: "frames w1 ! a = add_missing cols (frames w ! a)"
    by (auto simp: modify_frame_def)
  from e have w2: "w2 = w1" and s: "select (frames w1 ! a) cols = Inr sel"
    by (auto dest: eval_same)
  from n have o: "frames w' ! out = sel" by (auto simp: new_frame_def)
  show "columns (frames w' ! out) = cols" using s o by (simp add: select_columns)
  show "\<forall>c\<in>set cols. getitem (frames w' ! out) c =
           (if c \<in> set (columns (frames w ! a)) then getitem (frames w ! a) c
            else Inr (replicate (nrows (frames w ! a)) (Num 0)))"
    using s o f1 by (simp add: select_getitem add_missing_getitem)
qed

lemma transform_Inr:
  assumes "transform df w = (Inr out, w')"
  obtains features w2 where "fitted (engineer w)" "build_features df w = (Inr features, w2)"
    "align_columns features w2 = (Inr out, w')"
proof -
  from assms have "seq check_fitted (\<lambda>_. seq (build_features df) (\<lambda>features. align_columns features)) w = (Inr out, w')"
    by (simp add: transform_def)
  then obtain u w1 where c: "check_fitted w = (Inr u, w1)"
    and "seq (build_features df) (\<lambda>features. align_columns features) w1 = (Inr out, w')"
    by (rule seq_Inr)
  then obtain features w2 where b: "build_features df w1 = (Inr features, w2)"
    and a: "align_columns features w2 = (Inr out, w')"
    by (auto elim: seq_Inr)
  from c have "w1 = w" "fitted (engineer w)"
    by (auto simp: check_fitted_def eval_def split: if_splits)
  with b a that show ?thesis by simp
qed

lemma fit_transform_Inr:
  assumes "fit_transform df w = (Inr t, w')"
  shows "training_columns (engineer w') = Some (columns (frames w' ! t))"
proof -
  from assms have "seq (fit df) (\<lambda>_.
     seq (transform df) (\<lambda>transformed.
     seq (eval (\<lambda>w. Inr (columns (frames w ! transformed)))) (\<lambda>cols.
     seq (modify_engineer (\<lambda>e. e\<lparr> training_columns := Some cols \<rparr>)) (\<lambda>_.
     ret transformed)))) w = (Inr t, w')"
    by (simp add: fit_transform_def)
  then obtain u w1 where "fit df w = (Inr u, w1)"
    and "seq (transform df) (\<lambda>transformed.
     seq (eval (\<lambda>w. Inr (columns (frames w ! transformed)))) (\<lambda>cols.
     seq (modify_engineer (\<lambda>e. e\<lparr> training_columns := Some cols \<rparr>)) (\<lambda>_.
     ret transformed))) w1 = (Inr t, w')"
    by (rule seq_Inr)
  then obtain tr w2 where "transform df w1 = (Inr tr, w2)"
    and "seq (eval (\<lambda>w. Inr (columns (frames w ! tr)))) (\<lambda>cols.
     seq (modify_engineer (\<lambda>e. e\<lparr> training_columns := Some cols \<rparr>)) (\<lambda>_.
     ret tr)) w2 = (Inr t, w')"
    by (auto elim: seq_Inr)
  then show ?thesis
    by (auto simp: seq_def eval_def modify_engineer_def ret_def)
qed

lemma exec_stmt_other:
  "exec_stmt e s f = Inr f' \<Longrightarrow> k \<noteq> target s \<Longrightarrow> map_of f' k = map_of f k"
  by (induction s) (auto simp: map_of_setitem dest!: ebind_Inr split: if_splits)

lemma exec_Inr:
  assumes "exec s a w = (Inr u, w')" and "a < length (frames w)"
  obtains f' where "exec_stmt (engineer w) s (frames w ! a) = Inr f'" "frames w' ! a = f'"
    "engineer w' = engineer w" "length (frames w') = length (frames w)"
  using assms by (auto simp: exec_def split: sum.splits)

lemma exec_all_other:
  "exec_all ss a w = (Inr u, w') \<Longrightarrow> a < length (frames w) \<Longrightarrow> k \<notin> target ` set ss \<Longrightarrow>
     map_of (frames w' ! a) k = map_of (frames w ! a) k"
proof (induction ss arbitrary: w)
  case Nil
  then show ?case by (simp add: ret_def)
next
  case (Cons s ss)
  from Cons.prems(1) have "seq (exec s a) (\<lambda>_. exec_all ss a) w = (Inr u, w')" by simp
  then obtain x w1 where 1: "exec s a w = (Inr x, w1)" and 2: "exec_all ss a w1 = (Inr u, w')"
    by (rule seq_Inr)
  from 1 Cons.prems(2) obtain f' where f: "exec_stmt (engineer w) s (frames w ! a) = Inr f'"
    "frames w1 ! a = f'" "length (frames w1) = length (frames w)"
    by (rule exec_Inr)
  have "map_of (frames w' ! a) k = map_of (frames w1 ! a) k"
    using Cons.IH [OF 2] f(3) Cons.prems(2,3) by simp
  also have "\<dots> = map_of (frames w ! a) k"
    using exec_stmt_other [OF f(1)] f(2) Cons.prems(3) by simp
  finally show ?case .
qed

lemma exec_all_assigned:
  "exec_all ss a w = (Inr u, w') \<Longrightarrow> a < length (frames w) \<Longrightarrow> distinct (map target ss) \<Longrightarrow>
   k \<notin> target ` set ss \<Longrightarrow> Assign name rhs \<in> set ss \<Longrightarrow> (\<forall>e f. rhs e f = G (map_of f k)) \<Longrightarrow>
     getitem (frames w' ! a) name = G (map_of (frames w ! a) k) \<and>
     (\<exists>col. G (map_of (frames w ! a) k) = Inr col)"
proof (induction ss arbitrary: w)
  case Nil
  then show ?case by simp
next
  case (Cons s ss)
  from Cons.prems(1) have "seq (exec s a) (\<lambda>_. exec_all ss a) w = (Inr u, w')" by simp
  then obtain x w1 where 1: "exec s a w = (Inr x, w1)" and 2: "exec_all ss a w1 = (Inr u, w')"
    by (rule seq_Inr)
  from 1 Cons.prems(2) obtain f' where f: "exec_stmt (engineer w) s (frames w ! a) = Inr f'"
    "frames w1 ! a = f'" "length (frames w1) = length (frames w)"
    by (rule exec_Inr)
  have l1: "a < length (frames w1)" using f(3) Cons.prems(2) by simp
  show ?case
  proof (cases "s = Assign name rhs")
    case True
    with f(1) obtain col where r: "rhs (engineer w) (frames w ! a) = Inr col"
      and f': "f' = setitem name col (frames w ! a)"
      by (auto dest!: ebind_Inr)
    from True Cons.prems(3) have "name \<notin> target ` set ss" by auto
    then have "map_of (frames w' ! a) name = map_of (frames w1 ! a) name"
      using exec_all_other [OF 2 l1] by simp
    also have "\<dots> = Some col" by (simp add: f(2) f' map_of_setitem)
    finally have "getitem (frames w' ! a) name = Inr col" by (simp add: getitem_def)
    moreover have "G (map_of (frames w ! a) k) = Inr col" using r Cons.prems(6) by simp
    ultimately show ?thesis by simp
  next
    case False
    with Cons.prems(5) have m: "Assign name rhs \<in> set ss" by simp
    have "map_of (frames w1 ! a) k = map_of (frames w ! a) k"
      using exec_stmt_other [OF f(1)] f(2) Cons.prems(4) by simp
    then show ?thesis
      using Cons.IH [OF 2 l1 _ _ m Cons.prems(6)] Cons.prems(3,4) by simp
  qed
qed

lemma get_dummies_keeps:
  assumes "get_dummies data cols = Inr g" and "name \<notin> set cols" and "map_of data name = Some c"
  shows "map_of g name = Some c"
proof -
  from assms(1) obtain ds where g: "g = filter (\<lambda>(label, col). label \<notin> set cols) data @ concat ds"
    by (auto simp: get_dummies_def dest!: ebind_Inr)
  have "map_of (filter (\<lambda>(label, col). label \<notin> set cols) data) name = Some c"
    using assms(2,3) by (simp add: map_of_filter_in)
  then show ?thesis by (simp add: g)
qed

lemma build_features_Inr:
  assumes "build_features df w = (Inr features, w')"
  obtains a w1 w2 u where "a = length (frames w)" "frames w1 = frames w @ [frames w ! df]"
    "engineer w1 = engineer w"
    "exec_all feature_statements a w1 = (Inr u, w2)"
    "get_dummies (frames w2 ! a) categorical_cols = Inr (frames w' ! features)"
proof -
  from assms have "seq (frame_copy df) (\<lambda>features.
     seq (exec_all feature_statements features) (\<lambda>_.
     seq (eval (\<lambda>w. get_dummies (frames w ! features) categorical_cols)) (\<lambda>encoded.
     new_frame encoded))) w = (Inr features, w')"
    by (simp add: build_features_def)
  then obtain a w1 where 1: "frame_copy df w = (Inr a, w1)"
    and "seq (exec_all feature_statements a) (\<lambda>_.
     seq (eval (\<lambda>w. get_dummies (frames w ! a) categorical_cols)) (\<lambda>encoded.
     new_frame encoded)) w1 = (Inr features, w')"
    by (rule seq_Inr)
  then obtain u w2 where 2: "exec_all feature_statements a w1 = (Inr u, w2)"
    and "seq (eval (\<lambda>w. get_dummies (frames w ! a) categorical_cols)) (\<lambda>encoded.
     new_frame encoded) w2 = (Inr features, w')"
    by (auto elim: seq_Inr)
  then obtain encoded w3 where 3: "eval (\<lambda>w. get_dummies (frames w ! a) categorical_cols) w2 = (Inr encoded, w3)"
    and 4: "new_frame encoded w3 = (Inr features, w')"
    by (auto elim: seq_Inr)
  from 1 have a: "a = length (frames w)" "frames w1 = frames w @ [frames w ! df]" "engineer w1 = engineer w"
    by (auto simp: frame_copy_def new_frame_def)
  from 3 have "w3 = w2" "get_dummies (frames w2 ! a) categorical_cols = Inr encoded"
    by (auto dest: eval_same)
  moreover from 4 have "frames w' ! features = encoded" by (auto simp: new_frame_def)
  ultimately show ?thesis using that a 2 by simp
qed

lemma feature_targets:
  "map target feature_statements =
     [''hour_sin'', ''hour_cos'', ''dow_sin'', ''dow_cos'', ''zone_pair_mean'', ''zone_pair_std'',
      ''zone_pair_count'', ''hour_mean'', ''dow_mean'', ''zone_combo_mean'', ''distance_rush'',
      ''distance_weekend'', ''distance_squared'', ''distance_friday_prayer'', ''same_zone_type'',
      ''is_morning'', ''is_afternoon'', ''is_evening'', ''is_night'']"
  by (simp add: feature_statements_def)

lemma feature_targets_distinct: "distinct (map target feature_statements)"
  unfolding feature_targets by simp

lemma hour_not_target: "''hour'' \<notin> target ` set feature_statements"
proof -
  have "''hour'' \<notin> set (map target feature_statements)" unfolding feature_targets by simp
  then show ?thesis by simp
qed

lemma window_hour: "window lo hi e f = hour_windows (between lo hi) (map_of f ''hour'')"
  unfolding window_def hour_windows_def between_column_def getitem_def ebind_def
  by (simp split: option.splits sum.splits)

lemma is_night_hour:
  "is_night e f = hour_windows (\<lambda>x. int_or (between 22 23 x, between 0 5 x)) (map_of f ''hour'')"
  unfolding is_night_def hour_windows_def between_column_def getitem_def ebind_def
  by (simp add: zip_map_map zip_same_conv_map split: option.splits sum.splits)

lemma num_column_nth:
  assumes "num_column col = Inr xs" and "i < length col" and "col ! i = Num h"
  shows "i < length xs \<and> xs ! i = Some h"
proof -
  from assms(1) have m: "map cell_num col = map Inr xs"
    unfolding num_column_def by (rule those_err_Inr)
  then have l: "length xs = length col" by (metis length_map)
  from m have "map cell_num col ! i = map Inr xs ! i" by simp
  with assms(2,3) l show ?thesis by simp
qed

lemma build_features_window:
  assumes b: "build_features df w = (Inr features, w')" and d: "df < length (frames w)"
    and s: "Assign name rhs \<in> set feature_statements"
    and r: "\<forall>e f. rhs e f = hour_windows ind (map_of f ''hour'')"
    and n: "name \<notin> set categorical_cols"
    and h: "getitem (frames w ! df) ''hour'' = Inr hours" "i < length hours" "hours ! i = Num x"
  shows "\<exists>col. getitem (frames w' ! features) name = Inr col \<and> i < length col \<and>
           col ! i = Num (real_of_int (ind (Some x)))"
proof -
  from b obtain a w1 w2 u where a: "a = length (frames w)"
    and c: "frames w1 = frames w @ [frames w ! df]"
    and x: "exec_all feature_statements a w1 = (Inr u, w2)"
    and g: "get_dummies (frames w2 ! a) categorical_cols = Inr (frames w' ! features)"
    by (rule build_features_Inr)
  have l: "a < length (frames w1)" and f: "frames w1 ! a = frames w ! df"
    by (simp_all add: a c)
  from exec_all_assigned [where G = "hour_windows ind" and k = "''hour''" and name = name
      and rhs = rhs, OF x l feature_targets_distinct hour_not_target s r]
  obtain col where 1: "getitem (frames w2 ! a) name = Inr col"
    and 2: "hour_windows ind (map_of (frames w ! df) ''hour'') = Inr col"
    by (auto simp: f)
  from h(1) have m: "map_of (frames w ! df) ''hour'' = Some hours"
    by (auto simp: getitem_def split: option.splits)
  from 2 m obtain xs where xs: "num_column hours = Inr xs"
    and col: "col = map (\<lambda>x. Num (real_of_int (ind x))) xs"
    by (auto simp: hour_windows_def dest!: ebind_Inr)
  from num_column_nth [OF xs h(2,3)] have i: "i < length xs" "xs ! i = Some x" by simp_all
  from 1 have "map_of (frames w2 ! a) name = Some col"
    by (auto simp: getitem_def split: option.splits)
  then have "map_of (frames w' ! features) name = Some col"
    by (rule get_dummies_keeps [OF g n])
  then have "getitem (frames w' ! features) name = Inr col" by (simp add: getitem_def)
  then show ?thesis using i by (simp add: col)
qed

lemma build_features_windows:
  assumes b: "build_features df w = (Inr features, w')" and d: "df < length (frames w)"
    and h: "getitem (frames w ! df) ''hour'' = Inr hours" "i < length hours" "hours ! i = Num x"
  shows "\<exists>m a e n.
           getitem (frames w' ! features) ''is_morning'' = Inr m \<and>
           getitem (frames w' ! features) ''is_afternoon'' = Inr a \<and>
           getitem (frames w' ! features) ''is_evening'' = Inr e \<and>
           getitem (frames w' ! features) ''is_night'' = Inr n \<and>
           i < length m \<and> i < length a \<and> i < length e \<and> i < length n \<and>
           m ! i = Num (if 6 \<le> x \<and> x \<le> 10 then 1 else 0) \<and>
           a ! i = Num (if 12 \<le> x \<and> x \<le> 16 then 1 else 0) \<and>
           e ! i = Num (if 17 \<le> x \<and> x \<le> 21 then 1 else 0) \<and>
           n ! i = Num (if (22 \<le> x \<and> x \<le> 23) \<or> (0 \<le> x \<and> x \<le> 5) then 1 else 0)"
proof -
  have 1: "\<exists>col. getitem (frames w' ! features) ''is_morning'' = Inr col \<and> i < length col \<and>
           col ! i = Num (real_of_int (between 6 10 (Some x)))"
    by (rule build_features_window [where name = "''is_morning''" and rhs = "window 6 10" and ind = "between 6 10", OF b d _ _ _ h])
      (simp_all add: feature_statements_def window_hour categorical_cols_def)
  have 2: "\<exists>col. getitem (frames w' ! features) ''is_afternoon'' = Inr col \<and> i < length col \<and>
           col ! i = Num (real_of_int (between 12 16 (Some x)))"
    by (rule build_features_window [where name = "''is_afternoon''" and rhs = "window 12 16" and ind = "between 12 16", OF b d _ _ _ h])
      (simp_all add: feature_statements_def window_hour categorical_cols_def)
  have 3: "\<exists>col. getitem (frames w' ! features) ''is_evening'' = Inr col \<and> i < length col \<and>
           col ! i = Num (real_of_int (between 17 21 (Some x)))"
    by (rule build_features_window [where name = "''is_evening''" and rhs = "window 17 21" and ind = "between 17 21", OF b d _ _ _ h])
      (simp_all add: feature_statements_def window_hour categorical_cols_def)
  have 4: "\<exists>col. getitem (frames w' ! features) ''is_night'' = Inr col \<and> i < length col \<and>
           col ! i = Num (real_of_int (int_or (between 22 23 (Some x), between 0 5 (Some x))))"
    by (rule build_features_window [where name = "''is_night''" and rhs = is_night
          and ind = "\<lambda>x. int_or (between 22 23 x, between 0 5 x)", OF b d _ _ _ h])
      (simp_all add: feature_statements_def is_night_hour categorical_cols_def)
  have o: "real_of_int (int_or (between 22 23 (Some x), between 0 5 (Some x)))
             = (if (22 \<le> x \<and> x \<le> 23) \<or> (0 \<le> x \<and> x \<le> 5) then 1 else 0)"
    by (simp add: int_or_def)
  from 1 2 3 4 show ?thesis unfolding o by auto
qed

subsection \<open>The pipeline on the concrete store\<close>

lemmas run_defs = ret_def eval_def seq_def modify_engineer_def set_stat_def new_frame_def
  frame_copy_def modify_frame_def fit_def transform_def fit_transform_def build_features_def
  align_columns_def check_fitted_def exec_def

lemmas frame_defs = ebind_def columns_def nrows_def getitem_def setitem_def select_def
  num_column_def numeric1_def numeric2_def between_column_def dict_get_def present_def
  agg_mean_def agg_std_def agg_count_def group_values_def groupby_agg_def keys1_def keys2_def
  durations_def zone_pair_aggregates_def group_mean1_def group_mean2_def stat_value_def
  stat_dict_def cyclic_def zone_pair_lookup_def zone_pair_feature_def mapped_mean_def
  zone_combo_mean_def product_def squared_def same_zone_type_def window_def int_or_def
  is_night_def feature_statements_def levels_def dummy_columns_def get_dummies_def
  categorical_cols_def List.map_filter_def

lemmas example_defs = world0_def training_frame_def later_frame_def init_engineer_def

text \<open>
  \<^verbatim>\<open>fit_transform\<close> on the training frame returns the frame at address 3; a later
  \<^verbatim>\<open>transform\<close> of the frame at address 1 encodes it at address 5 and returns the
  aligned frame at address 6.
\<close>

lemma pipeline_world0:
  "case fit_transform 0 world0 of (r, w1) \<Rightarrow>
     r = Inr 3 \<and> length (frames w1) = 4 \<and>
     frames w1 ! 0 = training_frame \<and> frames w1 ! 1 = later_frame \<and>
     fitted (engineer w1) \<and>
     columns (frames w1 ! 3) = training_columns0 \<and>
     learned_pair_stat (engineer w1) ''mean'' (Num 1, Num 2) = Num 10 \<and>
     learned_pair_stat (engineer w1) ''mean'' (Num 3, Num 4) = Num 20 \<and>
     learned_pair_stat (engineer w1) ''count'' (Num 1, Num 2) = Num 1 \<and>
     getitem (frames w1 ! 3) ''zone_pair_mean'' = Inr [Num 15, Num 15] \<and>
     getitem (frames w1 ! 3) ''zone_pair_count'' = Inr [Num 0, Num 0] \<and>
     (case transform 1 w1 of (r', w') \<Rightarrow>
        r' = Inr 6 \<and>
        getitem (frames w' ! 5) ''weather_sandstorm'' = Inr [Num 1, Num 0, Num 0] \<and>
        getitem (frames w' ! 6) ''weather_sandstorm'' = Inl (KeyError ''weather_sandstorm'') \<and>
        getitem (frames w' ! 6) ''weather_rain'' = Inr [Num 0, Num 0, Num 0] \<and>
        getitem (frames w' ! 6) ''zone_pair_mean'' = Inr [Num 15, Num 15, Num 15] \<and>
        getitem (frames w' ! 6) ''zone_pair_count'' = Inr [Num 0, Num 0, Num 0] \<and>
        getitem (frames w' ! 6) ''is_morning'' = Inr [Num 0, Num 0, Num 0] \<and>
        getitem (frames w' ! 6) ''is_afternoon'' = Inr [Num 0, Num 1, Num 0] \<and>
        getitem (frames w' ! 6) ''is_evening'' = Inr [Num 0, Num 0, Num 1] \<and>
        getitem (frames w' ! 6) ''is_night'' = Inr [Num 0, Num 0, Num 0])"
  by (simp add: run_defs frame_defs example_defs training_columns0_def learned_pair_stat_def)

subsection \<open>\<^verbatim>\<open>transform\<close> returns on trip frames\<close>

lemma those_err_total:
  "(\<forall>x\<in>set xs. \<exists>y. g x = Inr y) \<Longrightarrow> \<exists>ys. those_err (map g xs) = Inr ys"
proof (induction xs)
  case Nil
  then show ?case by simp
next
  case (Cons x xs)
  then obtain y ys where "g x = Inr y" "those_err (map g xs) = Inr ys" by auto
  then show ?case by (simp add: ebind_def)
qed

lemma numeric_column_reads:
  assumes "numeric_column f name"
  shows "\<exists>col xs. getitem f name = Inr col \<and> num_column col = Inr xs"
proof -
  from assms obtain col where c: "map_of f name = Some col" and a: "list_all (\<lambda>c. \<not> is_text c) col"
    by (auto simp: numeric_column_def split: option.splits)
  have "\<forall>x\<in>set col. \<exists>y. cell_num x = Inr y"
  proof
    fix x assume "x \<in> set col"
    with a have "\<not> is_text x" by (simp add: list_all_iff)
    then show "\<exists>y. cell_num x = Inr y" by (cases x) simp_all
  qed
  then obtain xs where "num_column col = Inr xs"
    unfolding num_column_def using those_err_total by blast
  with c show ?thesis by (simp add: getitem_def)
qed

lemma numeric1_total: "numeric_column f name \<Longrightarrow> \<exists>col. numeric1 g f name = Inr col"
  by (drule numeric_column_reads) (auto simp: numeric1_def ebind_def)

lemma numeric2_total:
  "numeric_column f name1 \<Longrightarrow> numeric_column f name2 \<Longrightarrow> \<exists>col. numeric2 g f name1 name2 = Inr col"
  by (drule numeric_column_reads)+ (auto simp: numeric2_def ebind_def)

lemma between_column_total: "numeric_column f name \<Longrightarrow> \<exists>bs. between_column f name lo hi = Inr bs"
  by (drule numeric_column_reads) (auto simp: between_column_def ebind_def)

lemma present_reads: "map_of f name \<noteq> None \<Longrightarrow> \<exists>col. getitem f name = Inr col"
  by (auto simp: getitem_def)

lemma numeric_present: "numeric_column f name \<Longrightarrow> map_of f name \<noteq> None"
  by (auto simp: numeric_column_def split: option.splits)

lemma categorical_present: "categorical_column f name \<Longrightarrow> map_of f name \<noteq> None"
  by (auto simp: categorical_column_def split: option.splits)

lemma stats_ready_reads:
  assumes "stats_ready e"
  shows "\<exists>d. stat_dict e ''hour_mean'' = Inr d" "\<exists>d. stat_dict e ''dow_mean'' = Inr d"
    "\<exists>d. stat_dict e ''zone_combo_mean'' = Inr d" "\<exists>c. stat_value e ''global_mean'' = Inr c"
    "\<exists>c. stat_value e ''global_std'' = Inr c"
  using assms by (auto simp: stats_ready_def stat_dict_def stat_value_def)

lemma statement_total:
  assumes t: "trip_frame f" and r: "stats_ready e" and s: "s \<in> set feature_statements"
  shows "\<exists>f'. exec_stmt e s f = Inr f'"
proof -
  from t have n: "numeric_column f ''hour''" "numeric_column f ''day_of_week''"
      "numeric_column f ''dubai_distance''" "numeric_column f ''is_rush_hour''"
      "numeric_column f ''is_weekend''"
    and fp: "map_of f ''is_friday_prayer'' = None \<or> numeric_column f ''is_friday_prayer''"
    and p: "map_of f ''pickup_zone'' \<noteq> None" "map_of f ''dropoff_zone'' \<noteq> None"
    and c: "categorical_column f ''zone_type_pickup''" "categorical_column f ''zone_type_dropoff''"
    by (simp_all add: trip_frame_def)
  have cy: "\<exists>col. cyclic trig name period e f = Inr col" if "numeric_column f name" for trig name period
    using that by (simp add: cyclic_def numeric1_total)
  have zp: "\<exists>col. zone_pair_feature name fb e f = Inr col" if "\<exists>v. fb e = Inr v" for name fb
    using that present_reads [OF p(1)] present_reads [OF p(2)]
    by (auto simp: zone_pair_feature_def ebind_def)
  have mm: "\<exists>col. mapped_mean name st e f = Inr col"
    if "numeric_column f name" "\<exists>d. stat_dict e st = Inr d" for name st
    using that present_reads [OF numeric_present [OF that(1)]] stats_ready_reads(4) [OF r]
    by (auto simp: mapped_mean_def ebind_def)
  have zc: "\<exists>col. zone_combo_mean e f = Inr col"
    using present_reads [OF categorical_present [OF c(1)]]
      present_reads [OF categorical_present [OF c(2)]]
      stats_ready_reads(3,4) [OF r]
    by (auto simp: zone_combo_mean_def ebind_def)
  have pr: "\<exists>col. product name1 name2 e f = Inr col"
    if "numeric_column f name1" "numeric_column f name2" for name1 name2
    using that by (simp add: product_def numeric2_total)
  have sq: "\<exists>col. squared ''dubai_distance'' e f = Inr col"
    using n(3) by (simp add: squared_def numeric1_total)
  have sz: "\<exists>col. same_zone_type e f = Inr col"
    using present_reads [OF categorical_present [OF c(1)]]
      present_reads [OF categorical_present [OF c(2)]]
    by (auto simp: same_zone_type_def ebind_def)
  have wi: "\<exists>col. window lo hi e f = Inr col" for lo hi
    using between_column_total [OF n(1), of lo hi] by (auto simp: window_def ebind_def)
  have ni: "\<exists>col. is_night e f = Inr col"
    using between_column_total [OF n(1), of 22 23] between_column_total [OF n(1), of 0 5]
    by (auto simp: is_night_def ebind_def)
  have as: "\<exists>f'. exec_stmt e (Assign name rhs) f = Inr f'" if "\<exists>col. rhs e f = Inr col" for name rhs
    using that by (auto simp: ebind_def)
  have fr: "\<exists>f'. exec_stmt e (IfColumn ''is_friday_prayer''
        (Assign ''distance_friday_prayer'' (product ''dubai_distance'' ''is_friday_prayer''))) f = Inr f'"
  proof (cases "''is_friday_prayer'' \<in> set (columns f)")
    case True
    then have "numeric_column f ''is_friday_prayer''" using fp by (auto simp: in_columns_iff)
    then show ?thesis using True as pr n(3) by simp
  next
    case False
    then show ?thesis by simp
  qed
  have z3: "\<exists>v. (\<lambda>e. Inr (Num 0) :: error + cell) e = Inr v" by simp
  have all: "list_all (\<lambda>s. \<exists>f'. exec_stmt e s f = Inr f') feature_statements"
    unfolding feature_statements_def list.pred_inject
  proof (intro conjI TrueI)
    show "\<exists>f'. exec_stmt e (Assign ''hour_sin'' (cyclic sin ''hour'' 24)) f = Inr f'"
      by (rule as, rule cy, rule n)
    show "\<exists>f'. exec_stmt e (Assign ''hour_cos'' (cyclic cos ''hour'' 24)) f = Inr f'"
      by (rule as, rule cy, rule n)
    show "\<exists>f'. exec_stmt e (Assign ''dow_sin'' (cyclic sin ''day_of_week'' 7)) f = Inr f'"
      by (rule as, rule cy, rule n)
    show "\<exists>f'. exec_stmt e (Assign ''dow_cos'' (cyclic cos ''day_of_week'' 7)) f = Inr f'"
      by (rule as, rule cy, rule n)
    show "\<exists>f'. exec_stmt e (Assign ''zone_pair_mean''
        (zone_pair_feature ''mean'' (\<lambda>e. stat_value e ''global_mean''))) f = Inr f'"
      by (rule as, rule zp) (use stats_ready_reads(4) [OF r] in simp)
    show "\<exists>f'. exec_stmt e (Assign ''zone_pair_std''
        (zone_pair_feature ''std'' (\<lambda>e. stat_value e ''global_std''))) f = Inr f'"
      by (rule as, rule zp) (use stats_ready_reads(5) [OF r] in simp)
    show "\<exists>f'. exec_stmt e (Assign ''zone_pair_count''
        (zone_pair_feature ''count'' (\<lambda>e. Inr (Num 0)))) f = Inr f'"
      by (rule as, rule zp) simp
    show "\<exists>f'. exec_stmt e (Assign ''hour_mean'' (mapped_mean ''hour'' ''hour_mean'')) f = Inr f'"
      by (rule as, rule mm, rule n, rule stats_ready_reads(1) [OF r])
    show "\<exists>f'. exec_stmt e (Assign ''dow_mean'' (mapped_mean ''day_of_week'' ''dow_mean'')) f = Inr f'"
      by (rule as, rule mm, rule n, rule stats_ready_reads(2) [OF r])
    show "\<exists>f'. exec_stmt e (Assign ''zone_combo_mean'' zone_combo_mean) f = Inr f'"
      by (rule as, rule zc)
    show "\<exists>f'. exec_stmt e (Assign ''distance_rush'' (product ''dubai_distance'' ''is_rush_hour'')) f = Inr f'"
      by (rule as, rule pr, rule n, rule n)
    show "\<exists>f'. exec_stmt e (Assign ''distance_weekend'' (product ''dubai_distance'' ''is_weekend'')) f = Inr f'"
      by (rule as, rule pr, rule n, rule n)
    show "\<exists>f'. exec_stmt e (Assign ''distance_squared'' (squared ''dubai_distance'')) f = Inr f'"
      by (rule as, rule sq)
    show "\<exists>f'. exec_stmt e (IfColumn ''is_friday_prayer''
        (Assign ''distance_friday_prayer'' (product ''dubai_distance'' ''is_friday_prayer''))) f = Inr f'"
      by (rule fr)
    show "\<exists>f'. exec_stmt e (Assign ''same_zone_type'' same_zone_type) f = Inr f'"
      by (rule as, rule sz)
    show "\<exists>f'. exec_stmt e (Assign ''is_morning'' (window 6 10)) f = Inr f'"
      by (rule as, rule wi)
    show "\<exists>f'. exec_stmt e (Assign ''is_afternoon'' (window 12 16)) f = Inr f'"
      by (rule as, rule wi)
    show "\<exists>f'. exec_stmt e (Assign ''is_evening'' (window 17 21)) f = Inr f'"
      by (rule as, rule wi)
    show "\<exists>f'. exec_stmt e (Assign ''is_night'' is_night) f = Inr f'"
      by (rule as, rule ni)
  qed simp
  then show ?thesis using s by (simp add: list_all_iff)
qed

lemma trip_frame_same:
  assumes "\<forall>k\<in>set raw_labels. map_of f' k = map_of f k" and "trip_frame f"
  shows "trip_frame f'"
  using assms by (simp add: trip_frame_def numeric_column_def categorical_column_def raw_labels_def)

lemma targets_not_raw: "s \<in> set feature_statements \<Longrightarrow> target s \<notin> set raw_labels"
proof -
  have "set (map target feature_statements) \<inter> set raw_labels = {}"
    unfolding feature_targets raw_labels_def by simp
  then show "s \<in> set feature_statements \<Longrightarrow> target s \<notin> set raw_labels" by auto
qed

lemma statement_keeps_trip_frame:
  assumes "exec_stmt e s f = Inr f'" and "s \<in> set feature_statements" and "trip_frame f"
  shows "trip_frame f'"
proof (rule trip_frame_same)
  show "\<forall>k\<in>set raw_labels. map_of f' k = map_of f k"
  proof
    fix k assume "k \<in> set raw_labels"
    with targets_not_raw [OF assms(2)] have "k \<noteq> target s" by blast
    then show "map_of f' k = map_of f k" by (rule exec_stmt_other [OF assms(1)])
  qed
qed (rule assms(3))

lemma exec_all_total:
  assumes "set ss \<subseteq> set feature_statements" and "trip_frame (frames w ! a)"
    and "stats_ready (engineer w)" and "a < length (frames w)"
  shows "\<exists>u w'. exec_all ss a w = (Inr u, w') \<and> trip_frame (frames w' ! a)"
  using assms
proof (induction ss arbitrary: w)
  case Nil
  then show ?case by (simp add: ret_def)
next
  case (Cons s ss)
  from Cons.prems have m: "s \<in> set feature_statements" by simp
  from statement_total [OF Cons.prems(2,3) m]
  obtain f' where f: "exec_stmt (engineer w) s (frames w ! a) = Inr f'" by blast
  let ?w1 = "w\<lparr> frames := (frames w)[a := f'] \<rparr>"
  have x: "exec s a w = (Inr (), ?w1)" using f by (simp add: exec_def)
  have "trip_frame (frames ?w1 ! a)"
    using statement_keeps_trip_frame [OF f m Cons.prems(2)] Cons.prems(4) by simp
  moreover have "stats_ready (engineer ?w1)" "a < length (frames ?w1)" "set ss \<subseteq> set feature_statements"
    using Cons.prems by simp_all
  ultimately obtain u w' where "exec_all ss a ?w1 = (Inr u, w')" "trip_frame (frames w' ! a)"
    using Cons.IH [of ?w1] by blast
  then show ?case using x by (auto simp: seq_def)
qed

lemma levels_total:
  assumes "list_all (\<lambda>c. \<not> is_number c) col"
  shows "\<exists>ls. levels col = Inr ls"
proof -
  have "\<forall>x\<in>set col. \<exists>y. cell_level x = Inr y"
  proof
    fix x assume "x \<in> set col"
    with assms have "\<not> is_number x" by (simp add: list_all_iff)
    then show "\<exists>y. cell_level x = Inr y" by (cases x) simp_all
  qed
  then obtain ys where "those_err (map cell_level col) = Inr ys"
    using those_err_total by blast
  then show ?thesis by (simp add: levels_def ebind_def)
qed

lemma dummy_columns_total:
  assumes "categorical_column f name"
  shows "\<exists>d. ebind (getitem f name) (dummy_columns name) = Inr d"
proof -
  from assms obtain col where c: "map_of f name = Some col" and a: "list_all (\<lambda>c. \<not> is_number c) col"
    by (auto simp: categorical_column_def split: option.splits)
  from levels_total [OF a] obtain ls where "levels col = Inr ls" by blast
  with c show ?thesis by (simp add: getitem_def dummy_columns_def ebind_def)
qed

lemma get_dummies_total:
  assumes "trip_frame f"
  shows "\<exists>g. get_dummies f categorical_cols = Inr g"
proof -
  have "\<forall>name\<in>set categorical_cols. \<exists>d. ebind (getitem f name) (dummy_columns name) = Inr d"
    using assms by (auto simp: categorical_cols_def trip_frame_def intro: dummy_columns_total)
  then obtain ds where
    "those_err (map (\<lambda>name. ebind (getitem f name) (dummy_columns name)) categorical_cols) = Inr ds"
    using those_err_total [of categorical_cols "\<lambda>name. ebind (getitem f name) (dummy_columns name)"]
    by blast
  then show ?thesis by (simp add: get_dummies_def ebind_def)
qed

lemma build_features_total:
  assumes "df < length (frames w)" and "trip_frame (frames w ! df)" and "stats_ready (engineer w)"
  shows "\<exists>features w'. build_features df w = (Inr features, w')"
proof -
  let ?a = "length (frames w)"
  let ?w1 = "w\<lparr> frames := frames w @ [frames w ! df] \<rparr>"
  have c: "frame_copy df w = (Inr ?a, ?w1)" by (simp add: frame_copy_def new_frame_def)
  have "trip_frame (frames ?w1 ! ?a)" "stats_ready (engineer ?w1)" "?a < length (frames ?w1)"
    using assms by simp_all
  then obtain u w2 where x: "exec_all feature_statements ?a ?w1 = (Inr u, w2)"
    and t: "trip_frame (frames w2 ! ?a)"
    using exec_all_total [of feature_statements ?w1 ?a] by blast
  from get_dummies_total [OF t] obtain g where g: "get_dummies (frames w2 ! ?a) categorical_cols = Inr g"
    by blast
  show ?thesis
    using c x g by (simp add: build_features_def seq_def eval_def new_frame_def)
qed

lemma select_total:
  "(\<forall>c\<in>set names. map_of f c \<noteq> None) \<Longrightarrow> \<exists>g. select f names = Inr g"
  unfolding select_def
  by (rule those_err_total) (auto simp: getitem_def ebind_def)

lemma align_columns_total:
  assumes "a < length (frames w)"
  shows "\<exists>out w'. align_columns a w = (Inr out, w')"
proof (cases "training_columns (engineer w)")
  case None
  then show ?thesis by (simp add: align_columns_def ret_def)
next
  case (Some cols)
  let ?w1 = "w\<lparr> frames := (frames w)[a := add_missing cols (frames w ! a)] \<rparr>"
  have m: "modify_frame a (add_missing cols) w = (Inr (), ?w1)" by (simp add: modify_frame_def)
  have "frames ?w1 ! a = add_missing cols (frames w ! a)" using assms by simp
  moreover have "\<forall>c\<in>set cols. map_of (add_missing cols (frames w ! a)) c \<noteq> None"
    by (simp add: add_missing_lookup in_columns_iff)
  ultimately have "\<exists>g. select (frames ?w1 ! a) cols = Inr g"
    using select_total [of cols "add_missing cols (frames w ! a)"] by simp
  then obtain g where "select (frames ?w1 ! a) cols = Inr g" by blast
  then show ?thesis using Some m by (simp add: align_columns_def seq_def eval_def new_frame_def)
qed

lemma transform_total:
  assumes "df < length (frames w)" and "trip_frame (frames w ! df)"
    and "stats_ready (engineer w)" and "fitted (engineer w)"
  shows "\<exists>out w'. transform df w = (Inr out, w')"
proof -
  from build_features_total [OF assms(1-3)]
  obtain features w2 where b: "build_features df w = (Inr features, w2)" by blast
  have "features < length (frames w2)" using build_features_address [OF b] by simp
  from align_columns_total [OF this]
  obtain out w' where "align_columns features w2 = (Inr out, w')" by blast
  then show ?thesis
    using b assms(4) by (simp add: transform_def seq_def check_fitted_def eval_def)
qed

lemma fit_stats_ready:
  assumes "fit df w = (Inr u, w1)"
  shows "stats_ready (engineer w1) \<and> fitted (engineer w1)"
  using assms
  by (auto simp: fit_def seq_def eval_def modify_engineer_def set_stat_def stats_ready_def
      split: sum.splits)

lemma fit_transform_stats_ready:
  assumes "fit_transform df w = (Inr t, w')"
  shows "stats_ready (engineer w') \<and> fitted (engineer w')"
proof -
  from assms have "seq (fit df) (\<lambda>_.
     seq (transform df) (\<lambda>transformed.
     seq (eval (\<lambda>w. Inr (columns (frames w ! transformed)))) (\<lambda>cols.
     seq (modify_engineer (\<lambda>e. e\<lparr> training_columns := Some cols \<rparr>)) (\<lambda>_.
     ret transformed)))) w = (Inr t, w')"
    by (simp add: fit_transform_def)
  then obtain u w1 where f: "fit df w = (Inr u, w1)"
    and "seq (transform df) (\<lambda>transformed.
     seq (eval (\<lambda>w. Inr (columns (frames w ! transformed)))) (\<lambda>cols.
     seq (modify_engineer (\<lambda>e. e\<lparr> training_columns := Some cols \<rparr>)) (\<lambda>_.
     ret transformed))) w1 = (Inr t, w')"
    by (rule seq_Inr)
  then obtain tr w2 where t: "transform df w1 = (Inr tr, w2)"
    and r: "seq (eval (\<lambda>w. Inr (columns (frames w ! tr)))) (\<lambda>cols.
     seq (modify_engineer (\<lambda>e. e\<lparr> training_columns := Some cols \<rparr>)) (\<lambda>_.
     ret tr)) w2 = (Inr t, w')"
    by (auto elim: seq_Inr)
  have "unchanged_below 0 w1 w2" using t by (rule transform_unchanged) simp
  then have e: "engineer w2 = engineer w1" by (simp add: unchanged_below_def)
  from r have "\<exists>cols. engineer w' = (engineer w2)\<lparr> training_columns := Some cols \<rparr>"
    by (auto simp: seq_def eval_def modify_engineer_def ret_def)
  then show ?thesis using fit_stats_ready [OF f] e by (auto simp: stats_ready_def)
qed

lemma later_frame_is_trip_frame: "trip_frame later_frame"
  by (simp add: trip_frame_def numeric_column_def categorical_column_def later_frame_def)

lemma after_fit_transform:
  "fst (fit_transform 0 world0) = Inr 3 \<and>
   length (frames (snd (fit_transform 0 world0))) = 4 \<and>
   frames (snd (fit_transform 0 world0)) ! 0 = training_frame \<and>
   frames (snd (fit_transform 0 world0)) ! 1 = later_frame \<and>
   fitted (engineer (snd (fit_transform 0 world0))) \<and>
   columns (frames (snd (fit_transform 0 world0)) ! 3) = training_columns0"
  using pipeline_world0 by (cases "fit_transform 0 world0") simp

lemma after_later_transform:
  "fst (transform 1 (snd (fit_transform 0 world0))) = Inr 6"
  using pipeline_world0
  by (cases "fit_transform 0 world0"; cases "transform 1 (snd (fit_transform 0 world0))") simp

lemma fit_transform_world0:
  "fit_transform 0 world0 = (Inr 3, snd (fit_transform 0 world0))"
  using after_fit_transform by (metis prod.collapse)

lemma later_transform_world0:
  "transform 1 (snd (fit_transform 0 world0))
     = (Inr 6, snd (transform 1 (snd (fit_transform 0 world0))))"
  using after_later_transform by (metis prod.collapse)

text \<open>
  Claim C10. \<^verbatim>\<open>transform\<close> leaves the caller's frame as it was: whatever the call
  returns or raises, the frame at the input address, and every frame that existed before
  the call, is unchanged, and so is the engineer.
\<close>

theorem transform_leaves_input_unchanged:
  assumes "df < length (frames w)"
  shows "frames (snd (transform df w)) ! df = frames w ! df \<and>
         take (length (frames w)) (frames (snd (transform df w))) = frames w \<and>
         engineer (snd (transform df w)) = engineer w"
proof -
  obtain r w' where t: "transform df w = (r, w')" by (cases "transform df w")
  then have u: "unchanged_below (length (frames w)) w w'"
    by (rule transform_unchanged) simp
  then have tk: "take (length (frames w)) (frames w') = frames w" and e: "engineer w' = engineer w"
    by (simp_all add: unchanged_below_def)
  have "frames w' ! df = take (length (frames w)) (frames w') ! df"
    using assms by simp
  then have "frames w' ! df = frames w ! df" by (simp add: tk)
  with tk e t show ?thesis by simp
qed

theorem transform_leaves_input_unchanged_witness:
  "fitted (engineer (snd (fit_transform 0 world0))) \<and>
   fst (transform 1 (snd (fit_transform 0 world0))) = Inr 6 \<and>
   frames (snd (transform 1 (snd (fit_transform 0 world0)))) ! 1 = later_frame"
  using transform_leaves_input_unchanged [of 1 "snd (fit_transform 0 world0)"]
    after_fit_transform after_later_transform
  by simp

text \<open>
  Claim C7. On an engineer that has not been fitted, \<^verbatim>\<open>transform\<close> raises the
  not-fitted error for every input frame, returns no frame, and leaves the store and
  the engineer exactly as they were.
\<close>

theorem transform_before_fit_fails:
  assumes "\<not> fitted (engineer w)"
  shows "transform df w = (Inl not_fitted_error, w)"
  using assms by (simp add: transform_def seq_def check_fitted_def eval_def not_fitted_error_def)

theorem transform_before_fit_fails_witness:
  "\<not> fitted (engineer world0) \<and>
   transform 0 world0 = (Inl (ValueError ''FeatureEngineer must be fitted before transform''), world0)"
  using transform_before_fit_fails [of world0 0]
  by (simp add: world0_def init_engineer_def not_fitted_error_def)

text \<open>
  Claim C3. After a \<^verbatim>\<open>fit_transform\<close>, the training column list is the column list
  of the frame it returned. A later \<^verbatim>\<open>transform\<close> returns on every trip frame,
  whatever levels its categorical columns hold, and whenever it returns, the frame it
  returns has exactly that column list in that order, the engineer being left as it was.
  A training column that the encoded frame has keeps its values; one that it lacks is
  all zero; a column outside the training list is dropped.
\<close>

theorem transform_columns_frozen:
  assumes ft: "fit_transform df0 w0 = (Inr t0, w1)"
    and same: "engineer w = engineer w1"
  shows "training_columns (engineer w1) = Some (columns (frames w1 ! t0)) \<and>
         (df < length (frames w) \<and> trip_frame (frames w ! df) \<longrightarrow>
            (\<exists>out w'. transform df w = (Inr out, w'))) \<and>
         (\<forall>out w'. transform df w = (Inr out, w') \<longrightarrow>
            columns (frames w' ! out) = columns (frames w1 ! t0) \<and>
            engineer w' = engineer w \<and>
            (\<exists>features w2. build_features df w = (Inr features, w2) \<and>
               (\<forall>c\<in>set (columns (frames w1 ! t0)).
                  getitem (frames w' ! out) c =
                    (if c \<in> set (columns (frames w2 ! features))
                     then getitem (frames w2 ! features) c
                     else Inr (replicate (nrows (frames w2 ! features)) (Num 0))))))"
proof -
  let ?cols = "columns (frames w1 ! t0)"
  have tc: "training_columns (engineer w1) = Some ?cols"
    using ft by (rule fit_transform_Inr)
  have ready: "stats_ready (engineer w)" "fitted (engineer w)"
    using fit_transform_stats_ready [OF ft] same by simp_all
  have total: "df < length (frames w) \<and> trip_frame (frames w ! df) \<longrightarrow>
            (\<exists>out w'. transform df w = (Inr out, w'))"
    using transform_total [of df w] ready by blast
  have frozen: "columns (frames w' ! out) = ?cols \<and> engineer w' = engineer w \<and>
            (\<exists>features w2. build_features df w = (Inr features, w2) \<and>
               (\<forall>c\<in>set ?cols.
                  getitem (frames w' ! out) c =
                    (if c \<in> set (columns (frames w2 ! features))
                     then getitem (frames w2 ! features) c
                     else Inr (replicate (nrows (frames w2 ! features)) (Num 0)))))"
    if tr: "transform df w = (Inr out, w')" for out w'
  proof -
    from tr obtain features w2 where b: "build_features df w = (Inr features, w2)"
      and a: "align_columns features w2 = (Inr out, w')"
      by (rule transform_Inr)
    have "unchanged_below 0 w w2" using b by (rule build_features_unchanged) simp
    then have e2: "engineer w2 = engineer w" by (simp add: unchanged_below_def)
    then have t2: "training_columns (engineer w2) = Some ?cols" using same tc by simp
    have l2: "features < length (frames w2)" using build_features_address [OF b] by simp
    have c: "columns (frames w' ! out) = ?cols"
      using a t2 l2 by (rule align_columns_result)
    have z: "\<forall>c\<in>set ?cols. getitem (frames w' ! out) c =
             (if c \<in> set (columns (frames w2 ! features)) then getitem (frames w2 ! features) c
              else Inr (replicate (nrows (frames w2 ! features)) (Num 0)))"
      using a t2 l2 by (rule align_columns_result)
    have "unchanged_below 0 w w'" using tr by (rule transform_unchanged) simp
    then have e: "engineer w' = engineer w" by (simp add: unchanged_below_def)
    from c e b z show ?thesis by blast
  qed
  from tc total frozen show ?thesis by blast
qed

theorem transform_columns_frozen_witness:
  "fst (fit_transform 0 world0) = Inr 3 \<and>
   trip_frame later_frame \<and>
   getitem later_frame ''weather'' = Inr [Str ''sandstorm'', Str ''clear'', Str ''clear''] \<and>
   fst (transform 1 (snd (fit_transform 0 world0))) = Inr 6 \<and>
   columns (frames (snd (transform 1 (snd (fit_transform 0 world0)))) ! 6) = training_columns0 \<and>
   ''weather_sandstorm'' \<notin> set training_columns0"
proof -
  let ?w1 = "snd (fit_transform 0 world0)"
  let ?w' = "snd (transform 1 ?w1)"
  have "columns (frames ?w' ! 6) = columns (frames ?w1 ! 3)"
    using transform_columns_frozen [OF fit_transform_world0 refl, of 1] later_transform_world0
    by blast
  then have "columns (frames ?w' ! 6) = training_columns0"
    using after_fit_transform by simp
  moreover have "''weather_sandstorm'' \<notin> set training_columns0"
    by (simp add: training_columns0_def)
  moreover have "getitem later_frame ''weather'' = Inr [Str ''sandstorm'', Str ''clear'', Str ''clear'']"
    by (simp add: later_frame_def getitem_def)
  ultimately show ?thesis
    using after_fit_transform after_later_transform later_frame_is_trip_frame by simp
qed

subsection \<open>Time-window indicators\<close>

lemma getitem_in_columns: "getitem f c = Inr col \<Longrightarrow> c \<in> set (columns f)"
  by (auto simp: getitem_def in_columns_iff split: option.splits)

lemma align_columns_keeps:
  assumes a: "align_columns features w = (Inr out, w')"
    and l: "features < length (frames w)"
    and tc: "\<forall>cols. training_columns (engineer w) = Some cols \<longrightarrow> c \<in> set cols"
    and g: "getitem (frames w ! features) c = Inr col"
  shows "getitem (frames w' ! out) c = Inr col"
proof (cases "training_columns (engineer w)")
  case None
  with a have "out = features" "w' = w" by (simp_all add: align_columns_def ret_def)
  with g show ?thesis by simp
next
  case (Some cols)
  with tc have c: "c \<in> set cols" by simp
  from align_columns_result(2) [OF a Some l] c
  have "getitem (frames w' ! out) c =
           (if c \<in> set (columns (frames w ! features)) then getitem (frames w ! features) c
            else Inr (replicate (nrows (frames w ! features)) (Num 0)))"
    by blast
  then show ?thesis using g getitem_in_columns [OF g] by simp
qed

text \<open>
  Claim C5, as the code has it. The four indicators use inclusive bounds: for a trip at
  hour \<open>x\<close>, \<open>is_morning\<close> is 1 exactly when \<open>6 \<le> x \<le> 10\<close>, \<open>is_afternoon\<close> when
  \<open>12 \<le> x \<le> 16\<close>, \<open>is_evening\<close> when \<open>17 \<le> x \<le> 21\<close>, and \<open>is_night\<close> when
  \<open>22 \<le> x \<le> 23\<close> or \<open>0 \<le> x \<le> 5\<close>. So at hour 11 all four indicators are 0, while
  hour 16 has \<open>is_afternoon = 1\<close> and hour 21 has \<open>is_evening = 1\<close>, the other three
  being 0.
\<close>

theorem time_window_indicators:
  assumes tr: "transform df w = (Inr out, w')" and d: "df < length (frames w)"
    and tc: "\<forall>cols. training_columns (engineer w) = Some cols \<longrightarrow>
               set [''is_morning'', ''is_afternoon'', ''is_evening'', ''is_night''] \<subseteq> set cols"
    and h: "getitem (frames w ! df) ''hour'' = Inr hours" "i < length hours" "hours ! i = Num x"
  shows "\<exists>m a e n.
           getitem (frames w' ! out) ''is_morning'' = Inr m \<and>
           getitem (frames w' ! out) ''is_afternoon'' = Inr a \<and>
           getitem (frames w' ! out) ''is_evening'' = Inr e \<and>
           getitem (frames w' ! out) ''is_night'' = Inr n \<and>
           i < length m \<and> i < length a \<and> i < length e \<and> i < length n \<and>
           m ! i = Num (if 6 \<le> x \<and> x \<le> 10 then 1 else 0) \<and>
           a ! i = Num (if 12 \<le> x \<and> x \<le> 16 then 1 else 0) \<and>
           e ! i = Num (if 17 \<le> x \<and> x \<le> 21 then 1 else 0) \<and>
           n ! i = Num (if (22 \<le> x \<and> x \<le> 23) \<or> (0 \<le> x \<and> x \<le> 5) then 1 else 0) \<and>
           (x = 11 \<longrightarrow> m ! i = Num 0 \<and> a ! i = Num 0 \<and> e ! i = Num 0 \<and> n ! i = Num 0) \<and>
           (x = 16 \<longrightarrow> m ! i = Num 0 \<and> a ! i = Num 1 \<and> e ! i = Num 0 \<and> n ! i = Num 0) \<and>
           (x = 21 \<longrightarrow> m ! i = Num 0 \<and> a ! i = Num 0 \<and> e ! i = Num 1 \<and> n ! i = Num 0)"
proof -
  from tr obtain features w2 where b: "build_features df w = (Inr features, w2)"
    and al: "align_columns features w2 = (Inr out, w')"
    by (rule transform_Inr)
  have "unchanged_below 0 w w2" using b by (rule build_features_unchanged) simp
  then have e2: "engineer w2 = engineer w" by (simp add: unchanged_below_def)
  have l2: "features < length (frames w2)" using build_features_address [OF b] by simp
  from build_features_windows [OF b d h]
  obtain m a e n where g: "getitem (frames w2 ! features) ''is_morning'' = Inr m"
      "getitem (frames w2 ! features) ''is_afternoon'' = Inr a"
      "getitem (frames w2 ! features) ''is_evening'' = Inr e"
      "getitem (frames w2 ! features) ''is_night'' = Inr n"
    and len: "i < length m" "i < length a" "i < length e" "i < length n"
    and v: "m ! i = Num (if 6 \<le> x \<and> x \<le> 10 then 1 else 0)"
      "a ! i = Num (if 12 \<le> x \<and> x \<le> 16 then 1 else 0)"
      "e ! i = Num (if 17 \<le> x \<and> x \<le> 21 then 1 else 0)"
      "n ! i = Num (if (22 \<le> x \<and> x \<le> 23) \<or> (0 \<le> x \<and> x \<le> 5) then 1 else 0)"
    by blast
  have k: "getitem (frames w' ! out) ''is_morning'' = Inr m"
      "getitem (frames w' ! out) ''is_afternoon'' = Inr a"
      "getitem (frames w' ! out) ''is_evening'' = Inr e"
      "getitem (frames w' ! out) ''is_night'' = Inr n"
    using tc e2 by (auto intro!: align_columns_keeps [OF al l2] g)
  have s: "(x = 11 \<longrightarrow> m ! i = Num 0 \<and> a ! i = Num 0 \<and> e ! i = Num 0 \<and> n ! i = Num 0) \<and>
           (x = 16 \<longrightarrow> m ! i = Num 0 \<and> a ! i = Num 1 \<and> e ! i = Num 0 \<and> n ! i = Num 0) \<and>
           (x = 21 \<longrightarrow> m ! i = Num 0 \<and> a ! i = Num 0 \<and> e ! i = Num 1 \<and> n ! i = Num 0)"
    using v by simp
  show ?thesis
    using k len v s by blast
qed

theorem time_window_indicators_witness:
  "\<exists>m a e n.
     getitem (frames (snd (transform 1 (snd (fit_transform 0 world0)))) ! 6) ''is_morning'' = Inr m \<and>
     getitem (frames (snd (transform 1 (snd (fit_transform 0 world0)))) ! 6) ''is_afternoon'' = Inr a \<and>
     getitem (frames (snd (transform 1 (snd (fit_transform 0 world0)))) ! 6) ''is_evening'' = Inr e \<and>
     getitem (frames (snd (transform 1 (snd (fit_transform 0 world0)))) ! 6) ''is_night'' = Inr n \<and>
     m ! 0 = Num 0 \<and> a ! 0 = Num 0 \<and> e ! 0 = Num 0 \<and> n ! 0 = Num 0"
proof -
  let ?w1 = "snd (fit_transform 0 world0)"
  have tc: "training_columns (engineer ?w1) = Some training_columns0"
    using fit_transform_Inr [OF fit_transform_world0] after_fit_transform by simp
  have c: "\<forall>cols. training_columns (engineer ?w1) = Some cols \<longrightarrow>
               set [''is_morning'', ''is_afternoon'', ''is_evening'', ''is_night''] \<subseteq> set cols"
    unfolding tc by (simp add: training_columns0_def)
  have d: "1 < length (frames ?w1)" using after_fit_transform by simp
  have "frames ?w1 ! 1 = later_frame" using after_fit_transform by simp
  then have h: "getitem (frames ?w1 ! 1) ''hour'' = Inr [Num 11, Num 16, Num 21]"
    by (simp add: later_frame_def getitem_def)
  have "\<exists>m a e n.
     getitem (frames (snd (transform 1 ?w1)) ! 6) ''is_morning'' = Inr m \<and>
     getitem (frames (snd (transform 1 ?w1)) ! 6) ''is_afternoon'' = Inr a \<and>
     getitem (frames (snd (transform 1 ?w1)) ! 6) ''is_evening'' = Inr e \<and>
     getitem (frames (snd (transform 1 ?w1)) ! 6) ''is_night'' = Inr n \<and>
     m ! 0 = Num 0 \<and> a ! 0 = Num 0 \<and> e ! 0 = Num 0 \<and> n ! 0 = Num 0"
    using time_window_indicators [OF later_transform_world0 d c h, of 0 11] by auto
  then show ?thesis .
qed

text \<open>
  The later frame has trips at the hours 11, 16 and 21: the trip at hour 16 is an
  afternoon trip and the trip at hour 21 an evening trip.
\<close>

theorem covered_hours_counterexample:
  "getitem (frames (snd (fit_transform 0 world0)) ! 1) ''hour'' = Inr [Num 11, Num 16, Num 21] \<and>
   getitem (frames (snd (transform 1 (snd (fit_transform 0 world0)))) ! 6) ''is_afternoon''
     = Inr [Num 0, Num 1, Num 0] \<and>
   getitem (frames (snd (transform 1 (snd (fit_transform 0 world0)))) ! 6) ''is_evening''
     = Inr [Num 0, Num 0, Num 1]"
proof -
  have "frames (snd (fit_transform 0 world0)) ! 1 = later_frame" using after_fit_transform by simp
  then have "getitem (frames (snd (fit_transform 0 world0)) ! 1) ''hour'' = Inr [Num 11, Num 16, Num 21]"
    by (simp add: later_frame_def getitem_def)
  moreover have "getitem (frames (snd (transform 1 (snd (fit_transform 0 world0)))) ! 6) ''is_afternoon''
     = Inr [Num 0, Num 1, Num 0] \<and>
   getitem (frames (snd (transform 1 (snd (fit_transform 0 world0)))) ! 6) ''is_evening''
     = Inr [Num 0, Num 0, Num 1]"
    using pipeline_world0
    by (cases "fit_transform 0 world0"; cases "transform 1 (snd (fit_transform 0 world0))") simp
  ultimately show ?thesis by simp
qed

subsection \<open>Zone pair statistics\<close>

text \<open>
  After \<^verbatim>\<open>fit\<close>, the keys of \<^verbatim>\<open>zone_pair_stats\<close> are the three statistic names: no
  tuple is a key, so the lookup of a zone pair finds nothing and the row gets the
  fallback, for every pair.
\<close>

lemma fit_zone_pair_stats:
  assumes "fit df w = (Inr u, w1)"
  shows "zone_pair_stats (engineer w1) (KTuple ks) = None"
  using assms
  by (auto simp: fit_def seq_def eval_def modify_engineer_def set_stat_def zone_pair_aggregates_def
      ebind_def split: sum.splits)

lemma zone_pair_lookup_after_fit:
  assumes "fit df w = (Inr u, w1)"
  shows "zone_pair_lookup (engineer w1) name v pd = v"
proof -
  obtain a b where pd: "pd = (a, b)" by (cases pd)
  show ?thesis
    unfolding zone_pair_lookup_def pd
    by (cases a; cases b) (simp_all add: dict_get_def fit_zone_pair_stats [OF assms])
qed

text \<open>
  Claim C1 on the concrete store. \<^verbatim>\<open>fit\<close> learned the mean 10 and the count 1 for the
  pair (1, 2) and the mean 20 for the pair (3, 4), yet the transformed training frame has
  the global mean 15 and the count 0 on both rows, and so has every row of the later
  frame, whose first two trips are on pairs seen during fit.
\<close>

theorem zone_pair_features_use_fallback:
  "getitem training_frame ''pickup_zone'' = Inr [Num 1, Num 3] \<and>
   getitem training_frame ''dropoff_zone'' = Inr [Num 2, Num 4] \<and>
   getitem training_frame ''actual_duration_minutes'' = Inr [Num 10, Num 20] \<and>
   fst (fit_transform 0 world0) = Inr 3 \<and>
   learned_pair_stat (engineer (snd (fit_transform 0 world0))) ''mean'' (Num 1, Num 2) = Num 10 \<and>
   learned_pair_stat (engineer (snd (fit_transform 0 world0))) ''mean'' (Num 3, Num 4) = Num 20 \<and>
   learned_pair_stat (engineer (snd (fit_transform 0 world0))) ''count'' (Num 1, Num 2) = Num 1 \<and>
   getitem (frames (snd (fit_transform 0 world0)) ! 3) ''zone_pair_mean'' = Inr [Num 15, Num 15] \<and>
   getitem (frames (snd (fit_transform 0 world0)) ! 3) ''zone_pair_count'' = Inr [Num 0, Num 0] \<and>
   getitem later_frame ''pickup_zone'' = Inr [Num 1, Num 3, Num 5] \<and>
   getitem later_frame ''dropoff_zone'' = Inr [Num 2, Num 4, Num 6] \<and>
   getitem (frames (snd (transform 1 (snd (fit_transform 0 world0)))) ! 6) ''zone_pair_mean''
     = Inr [Num 15, Num 15, Num 15] \<and>
   getitem (frames (snd (transform 1 (snd (fit_transform 0 world0)))) ! 6) ''zone_pair_count''
     = Inr [Num 0, Num 0, Num 0]"
proof -
  have "getitem training_frame ''pickup_zone'' = Inr [Num 1, Num 3] \<and>
   getitem training_frame ''dropoff_zone'' = Inr [Num 2, Num 4] \<and>
   getitem training_frame ''actual_duration_minutes'' = Inr [Num 10, Num 20]"
    by (simp add: training_frame_def getitem_def)
  moreover have "getitem later_frame ''pickup_zone'' = Inr [Num 1, Num 3, Num 5] \<and>
   getitem later_frame ''dropoff_zone'' = Inr [Num 2, Num 4, Num 6]"
    by (simp add: later_frame_def getitem_def)
  moreover have "fst (fit_transform 0 world0) = Inr 3 \<and>
   learned_pair_stat (engineer (snd (fit_transform 0 world0))) ''mean'' (Num 1, Num 2) = Num 10 \<and>
   learned_pair_stat (engineer (snd (fit_transform 0 world0))) ''mean'' (Num 3, Num 4) = Num 20 \<and>
   learned_pair_stat (engineer (snd (fit_transform 0 world0))) ''count'' (Num 1, Num 2) = Num 1 \<and>
   getitem (frames (snd (fit_transform 0 world0)) ! 3) ''zone_pair_mean'' = Inr [Num 15, Num 15] \<and>
   getitem (frames (snd (fit_transform 0 world0)) ! 3) ''zone_pair_count'' = Inr [Num 0, Num 0] \<and>
   getitem (frames (snd (transform 1 (snd (fit_transform 0 world0)))) ! 6) ''zone_pair_mean''
     = Inr [Num 15, Num 15, Num 15] \<and>
   getitem (frames (snd (transform 1 (snd (fit_transform 0 world0)))) ! 6) ''zone_pair_count''
     = Inr [Num 0, Num 0, Num 0]"
    using pipeline_world0
    by (cases "fit_transform 0 world0"; cases "transform 1 (snd (fit_transform 0 world0))") simp
  ultimately show ?thesis by simp
qed

end
